theory Spec2Isabelle
  imports Main
begin

text \<open>
  A model of the script \<open>extract_weather.py\<close>: the location resolver, the weather client with
  its retries, the record shaper, the storage writer and the loop of \<open>main\<close>, followed by
  the properties of the specification that were checked against it.
\<close>

section \<open>Python values used by extract\_weather.py\<close>

text \<open>
  A Python \<open>str\<close> is a sequence of Unicode code points, so it is modelled as a list of
  natural numbers; \<open>ustr\<close> turns an ASCII literal into such a list. A Python \<open>float\<close>
  is only moved around by the script (parsed, stored, printed), never computed with, so
  the model is polymorphic in the type \<open>'f\<close> of floats and takes the conversions of the
  Python runtime as parameters.
\<close>

type_synonym ustring = "nat list"

definition ustr :: "string \<Rightarrow> ustring" where
  "ustr s = map of_char s"

datatype py_error =
    KeyError
  | IndexError
  | TypeError
  | ValueError
  | AttributeError
  | OverflowError
  | UnicodeEncodeError
  | OSError
  | JSONDecodeError
  | RequestException nat
  | OtherException nat

text \<open>What \<open>json.load\<close> and \<open>resp.json()\<close> return: \<open>None\<close>, \<open>bool\<close>, \<open>int\<close>,
  \<open>float\<close>, \<open>str\<close>, \<open>list\<close> and \<open>dict\<close> (insertion ordered, keys are strings).\<close>

datatype 'f json =
    JNull
  | JBool bool
  | JInt int
  | JFloat 'f
  | JStr ustring
  | JArr "'f json list"
  | JObj "(ustring \<times> 'f json) list"

text \<open>A \<open>dict\<close> keeps insertion order; assigning to a key that is present replaces the
  value where it stands, assigning to a new key appends.\<close>

fun dict_set :: "('k \<times> 'v) list \<Rightarrow> 'k \<Rightarrow> 'v \<Rightarrow> ('k \<times> 'v) list" where
  "dict_set [] k v = [(k, v)]"
| "dict_set ((k', v') # d) k v = (if k' = k then (k, v) # d else (k', v') # dict_set d k v)"

type_synonym 'f locations = "(ustring \<times> ('f \<times> 'f)) list"

subsection \<open>String methods\<close>

text \<open>\<open>s.split(sep)\<close> for a one-character separator: never returns an empty list.\<close>

fun split_on :: "nat \<Rightarrow> ustring \<Rightarrow> ustring list" where
  "split_on sep [] = [[]]"
| "split_on sep (c # cs) =
     (if c = sep then [] # split_on sep cs
      else (case split_on sep cs of t # ts \<Rightarrow> (c # t) # ts | [] \<Rightarrow> [[c]]))"

text \<open>\<open>s.split(sep, 1)\<close>: one part when \<open>sep\<close> does not occur, otherwise the text before
  the first \<open>sep\<close> and the whole rest.\<close>

definition split_once :: "nat \<Rightarrow> ustring \<Rightarrow> ustring list" where
  "split_once sep s =
     (case dropWhile (\<lambda>c. c \<noteq> sep) s of
        [] \<Rightarrow> [s]
      | _ # rest \<Rightarrow> [takeWhile (\<lambda>c. c \<noteq> sep) s, rest])"

text \<open>The tuple assignment \<open>a, b = parts\<close> raises \<open>ValueError\<close> unless there are exactly
  two parts.\<close>

definition unpack2 :: "'a list \<Rightarrow> py_error + ('a \<times> 'a)" where
  "unpack2 parts = (case parts of [a, b] \<Rightarrow> Inr (a, b) | _ \<Rightarrow> Inl ValueError)"

text \<open>The code points \<open>str.strip()\<close> removes (Python's Unicode whitespace).\<close>

definition py_isspace :: "nat \<Rightarrow> bool" where
  "py_isspace c \<longleftrightarrow>
     (9 \<le> c \<and> c \<le> 13) \<or> (28 \<le> c \<and> c \<le> 32) \<or> c = 133 \<or> c = 160 \<or> c = 5760 \<or>
     (8192 \<le> c \<and> c \<le> 8202) \<or> c = 8232 \<or> c = 8233 \<or> c = 8239 \<or> c = 8287 \<or> c = 12288"

definition py_strip :: "ustring \<Rightarrow> ustring" where
  "py_strip s = rev (dropWhile py_isspace (rev (dropWhile py_isspace s)))"

section \<open>The world outside the script\<close>

text \<open>Log records, one constructor per logging call of the script. A location name is
  a string, or \<open>None\<close> when \<open>args.location\<close> was not given.\<close>

datatype 'f log_event =
    Warn_skip_token ustring
  | Err_no_api_key
  | Err_location_requires_lat_lon
  | Info_found nat "ustring option list"
  | Info_fetching "ustring option" 'f 'f
  | Warn_request_failed nat nat py_error
  | Err_max_retries 'f 'f
  | Exc_failed_fetch "ustring option" py_error
  | Info_dry_run "ustring option" nat
  | Info_uploaded ustring ustring
  | Exc_failed_upload "ustring option"
  | Info_complete

text \<open>One attempt of \<open>requests.get\<close>, \<open>raise_for_status\<close> and \<open>resp.json()\<close>: the decoded
  body or an exception. The exceptions of class \<open>requests.RequestException\<close> (transport
  failure, timeout, non-2xx status) are the values \<open>RequestException n\<close>.\<close>

datatype 'f http_outcome =
    Http_ok "'f json"
  | Http_raises py_error

text \<open>A reading of \<open>datetime.utcnow()\<close>.\<close>

record datetime =
  year :: nat
  month :: nat
  day :: nat
  hour :: nat
  minute :: nat
  second :: nat
  microsecond :: nat

text \<open>
  Everything the script gets from its libraries and its surroundings. The fields indexed
  by a \<open>nat\<close> are indexed by the number of earlier calls of the same operation, so that
  successive calls may answer differently.
  \<^item> \<open>float_of_str\<close>: \<open>float(s)\<close> on a string, \<open>None\<close> for \<open>ValueError\<close>;
  \<^item> \<open>float_of_int\<close>: \<open>float(i)\<close> on an integer, \<open>None\<close> for \<open>OverflowError\<close>;
  \<^item> \<open>float_repr\<close>: the text \<open>json.dumps\<close> prints for a float;
  \<^item> \<open>unicode_lower\<close>: \<open>str.lower()\<close> on a string that is not pure ASCII;
  \<^item> \<open>read_json\<close>: \<open>open(path)\<close> followed by \<open>json.load\<close>;
  \<^item> \<open>http_get\<close>: the request for (lat, lon, appid);
  \<^item> \<open>utcnow\<close>: the clock;
  \<^item> \<open>s3_put\<close>: \<open>put_object\<close> for (bucket, key, body), \<open>None\<close> when it succeeds.
\<close>

record 'f env =
  float_of_str :: "ustring \<Rightarrow> 'f option"
  float_of_int :: "int \<Rightarrow> 'f option"
  float_repr :: "'f \<Rightarrow> ustring"
  unicode_lower :: "ustring \<Rightarrow> ustring"
  read_json :: "ustring \<Rightarrow> py_error + 'f json"
  http_get :: "nat \<Rightarrow> 'f \<Rightarrow> 'f \<Rightarrow> ustring \<Rightarrow> 'f http_outcome"
  utcnow :: "nat \<Rightarrow> datetime"
  s3_put :: "nat \<Rightarrow> ustring \<Rightarrow> ustring \<Rightarrow> nat list \<Rightarrow> py_error option"

text \<open>The effects of a run: requests sent, seconds slept, clock readings, \<open>put_object\<close>
  calls (bucket, key, body) and log records, each in order.\<close>

record 'f world =
  requests_made :: nat
  sleeps :: "nat list"
  clock_reads :: nat
  puts :: "(ustring \<times> ustring \<times> nat list) list"
  logs :: "'f log_event list"

definition world0 :: "'f world" where
  "world0 = \<lparr>requests_made = 0, sleeps = [], clock_reads = 0, puts = [], logs = []\<rparr>"

definition log_event :: "'f log_event \<Rightarrow> 'f world \<Rightarrow> 'f world" where
  "log_event e w = w\<lparr>logs := logs w @ [e]\<rparr>"

definition request_sent :: "'f world \<Rightarrow> 'f world" where
  "request_sent w = w\<lparr>requests_made := Suc (requests_made w)\<rparr>"

definition time_sleep :: "nat \<Rightarrow> 'f world \<Rightarrow> 'f world" where
  "time_sleep secs w = w\<lparr>sleeps := sleeps w @ [secs]\<rparr>"

definition clock_read :: "'f world \<Rightarrow> 'f world" where
  "clock_read w = w\<lparr>clock_reads := Suc (clock_reads w)\<rparr>"

definition put_called :: "ustring \<Rightarrow> ustring \<Rightarrow> nat list \<Rightarrow> 'f world \<Rightarrow> 'f world" where
  "put_called bucket key body w = w\<lparr>puts := puts w @ [(bucket, key, body)]\<rparr>"

section \<open>Location resolver\<close>

text \<open>
  \<^verbatim>\<open>
  def parse_locations_arg(locations_arg):
      locations = {}
      for pair in locations_arg.split(","):
          if "=" in pair:
              name, coords = pair.split("=", 1)
              lat_str, lon_str = coords.split(",", 1)
              locations[name.strip()] = (float(lat_str), float(lon_str))
          else:
              logger.warning("Skipping invalid location token: %s", pair)
      return locations
  \<close>
  The loop over the tokens, with the dictionary built so far and the world.
\<close>

definition py_float_str :: "'f env \<Rightarrow> ustring \<Rightarrow> py_error + 'f" where
  "py_float_str E s = (case float_of_str E s of None \<Rightarrow> Inl ValueError | Some x \<Rightarrow> Inr x)"

fun parse_pairs ::
  "'f env \<Rightarrow> ustring list \<Rightarrow> 'f locations \<Rightarrow> 'f world \<Rightarrow> (py_error + 'f locations) \<times> 'f world"
where
  "parse_pairs E [] locations w = (Inr locations, w)"
| "parse_pairs E (pair # rest) locations w =
     (if of_char CHR ''='' \<in> set pair then
        (case unpack2 (split_once (of_char CHR ''='') pair) of
           Inl e \<Rightarrow> (Inl e, w)
         | Inr (name, coords) \<Rightarrow>
            (case unpack2 (split_once (of_char CHR '','') coords) of
               Inl e \<Rightarrow> (Inl e, w)
             | Inr (lat_str, lon_str) \<Rightarrow>
                (case py_float_str E lat_str of
                   Inl e \<Rightarrow> (Inl e, w)
                 | Inr lat \<Rightarrow>
                    (case py_float_str E lon_str of
                       Inl e \<Rightarrow> (Inl e, w)
                     | Inr lon \<Rightarrow>
                        parse_pairs E rest (dict_set locations (py_strip name) (lat, lon)) w))))
      else parse_pairs E rest locations (log_event (Warn_skip_token pair) w))"

definition parse_locations_arg ::
  "'f env \<Rightarrow> ustring \<Rightarrow> 'f world \<Rightarrow> (py_error + 'f locations) \<times> 'f world"
where
  "parse_locations_arg E locations_arg w =
     parse_pairs E (split_on (of_char CHR '','') locations_arg) [] w"

text \<open>
  \<^verbatim>\<open>
  def load_locations_from_file(path):
      with open(path, "r", encoding="utf-8") as fh:
          data = json.load(fh)
      locations = {name: (float(coords[0]), float(coords[1])) for name, coords in data.items()}
      return locations
  \<close>
  Subscripting and \<open>float()\<close> on the decoded values: \<open>x[i]\<close> reads a list or a string,
  looks the key \<open>i\<close> up in a dictionary (whose keys are strings, so it is missing) and is
  a \<open>TypeError\<close> on anything else; \<open>float\<close> accepts floats, integers, booleans and
  strings.
\<close>

fun getitem_idx :: "'f json \<Rightarrow> nat \<Rightarrow> py_error + 'f json" where
  "getitem_idx (JArr xs) i = (if i < length xs then Inr (xs ! i) else Inl IndexError)"
| "getitem_idx (JStr s) i = (if i < length s then Inr (JStr [s ! i]) else Inl IndexError)"
| "getitem_idx (JObj d) i = Inl KeyError"
| "getitem_idx JNull i = Inl TypeError"
| "getitem_idx (JBool b) i = Inl TypeError"
| "getitem_idx (JInt n) i = Inl TypeError"
| "getitem_idx (JFloat x) i = Inl TypeError"

definition py_float_int :: "'f env \<Rightarrow> int \<Rightarrow> py_error + 'f" where
  "py_float_int E i = (case float_of_int E i of None \<Rightarrow> Inl OverflowError | Some x \<Rightarrow> Inr x)"

fun py_float :: "'f env \<Rightarrow> 'f json \<Rightarrow> py_error + 'f" where
  "py_float E (JFloat x) = Inr x"
| "py_float E (JInt i) = py_float_int E i"
| "py_float E (JBool b) = py_float_int E (if b then 1 else 0)"
| "py_float E (JStr s) = py_float_str E s"
| "py_float E JNull = Inl TypeError"
| "py_float E (JArr xs) = Inl TypeError"
| "py_float E (JObj d) = Inl TypeError"

fun load_items ::
  "'f env \<Rightarrow> (ustring \<times> 'f json) list \<Rightarrow> 'f locations \<Rightarrow> py_error + 'f locations"
where
  "load_items E [] locations = Inr locations"
| "load_items E ((name, coords) # rest) locations =
     (case getitem_idx coords 0 of
        Inl e \<Rightarrow> Inl e
      | Inr c0 \<Rightarrow>
         (case py_float E c0 of
            Inl e \<Rightarrow> Inl e
          | Inr lat \<Rightarrow>
             (case getitem_idx coords 1 of
                Inl e \<Rightarrow> Inl e
              | Inr c1 \<Rightarrow>
                 (case py_float E c1 of
                    Inl e \<Rightarrow> Inl e
                  | Inr lon \<Rightarrow> load_items E rest (dict_set locations name (lat, lon))))))"

text \<open>\<open>data.items()\<close> exists on a dictionary only.\<close>

definition load_locations_from_file :: "'f env \<Rightarrow> ustring \<Rightarrow> py_error + 'f locations" where
  "load_locations_from_file E path =
     (case read_json E path of
        Inl e \<Rightarrow> Inl e
      | Inr data \<Rightarrow>
         (case data of
            JObj items \<Rightarrow> load_items E items []
          | _ \<Rightarrow> Inl AttributeError))"

section \<open>Weather client\<close>

definition MAX_RETRIES :: nat where
  "MAX_RETRIES = 3"

definition RETRY_BACKOFF_SECONDS :: nat where
  "RETRY_BACKOFF_SECONDS = 3"

text \<open>
  \<^verbatim>\<open>
  attempt = 0
  while attempt < MAX_RETRIES:
      try:
          resp = requests.get(CURRENT_WEATHER_BASE, params=params, timeout=20)
          resp.raise_for_status()
          return resp.json()
      except requests.RequestException as exc:
          attempt += 1
          logger.warning("Current Weather request failed (attempt %d/%d): %s", ...)
          if attempt >= MAX_RETRIES:
              logger.error("Max retries reached for lat=%s lon=%s", lat, lon)
              raise
          time.sleep(RETRY_BACKOFF_SECONDS * attempt)
  \<close>
  The loop, from a given value of \<open>attempt\<close>. An exception that is not a
  \<open>RequestException\<close> is not caught. A loop left through its condition returns
  Python's \<open>None\<close>, which is \<open>JNull\<close>.
\<close>

function retry_loop ::
  "'f env \<Rightarrow> 'f \<Rightarrow> 'f \<Rightarrow> ustring \<Rightarrow> nat \<Rightarrow> 'f world \<Rightarrow> (py_error + 'f json) \<times> 'f world"
where
  "retry_loop E la lo api_key attempt w =
     (if attempt < MAX_RETRIES then
        (case http_get E (requests_made w) la lo api_key of
           Http_ok body \<Rightarrow> (Inr body, request_sent w)
         | Http_raises exc \<Rightarrow>
            (case exc of
               RequestException n \<Rightarrow>
                 (if attempt + 1 \<ge> MAX_RETRIES then
                    (Inl exc,
                     log_event (Err_max_retries la lo)
                       (log_event (Warn_request_failed (attempt + 1) MAX_RETRIES exc)
                          (request_sent w)))
                  else
                    retry_loop E la lo api_key (attempt + 1)
                      (time_sleep (RETRY_BACKOFF_SECONDS * (attempt + 1))
                         (log_event (Warn_request_failed (attempt + 1) MAX_RETRIES exc)
                            (request_sent w))))
             | _ \<Rightarrow> (Inl exc, request_sent w)))
      else (Inr JNull, w))"
  by pat_completeness auto
termination
  by (relation "measure (\<lambda>(E, la, lo, api_key, attempt, w). MAX_RETRIES - attempt)") auto

definition call_current_weather ::
  "'f env \<Rightarrow> 'f \<Rightarrow> 'f \<Rightarrow> ustring \<Rightarrow> 'f world \<Rightarrow> (py_error + 'f json) \<times> 'f world"
where
  "call_current_weather E la lo api_key w = retry_loop E la lo api_key 0 w"

section \<open>Record shaper\<close>

text \<open>\<open>x[key]\<close> with a string key: a dictionary lookup, and a \<open>TypeError\<close> on every other
  value (lists and strings take integer indices, the rest is not subscriptable).\<close>

fun getitem_key :: "'f json \<Rightarrow> ustring \<Rightarrow> py_error + 'f json" where
  "getitem_key (JObj d) k = (case map_of d k of None \<Rightarrow> Inl KeyError | Some v \<Rightarrow> Inr v)"
| "getitem_key JNull k = Inl TypeError"
| "getitem_key (JBool b) k = Inl TypeError"
| "getitem_key (JInt n) k = Inl TypeError"
| "getitem_key (JFloat x) k = Inl TypeError"
| "getitem_key (JStr s) k = Inl TypeError"
| "getitem_key (JArr xs) k = Inl TypeError"

definition py_bind :: "py_error + 'a \<Rightarrow> ('a \<Rightarrow> py_error + 'b) \<Rightarrow> py_error + 'b" where
  "py_bind r f = (case r of Inl e \<Rightarrow> Inl e | Inr x \<Rightarrow> f x)"

definition json_of_name :: "ustring option \<Rightarrow> 'f json" where
  "json_of_name name = (case name of None \<Rightarrow> JNull | Some s \<Rightarrow> JStr s)"

text \<open>
  \<^verbatim>\<open>
  data_to_store = {
      "city": name, "lat": lat, "lon": lon,
      "temp": payload["main"]["temp"],
      "humidity": payload["main"]["humidity"],
      "wind_speed": payload["wind"]["speed"],
      "description": payload["weather"][0]["description"],
      "timestamp": payload["dt"],
  }
  \<close>
  The values are evaluated in the order written; the first exception leaves the display.
\<close>

definition shape ::
  "ustring option \<Rightarrow> 'f \<Rightarrow> 'f \<Rightarrow> 'f json \<Rightarrow> py_error + (ustring \<times> 'f json) list"
where
  "shape name la lo payload =
     py_bind (py_bind (getitem_key payload (ustr ''main'')) (\<lambda>m. getitem_key m (ustr ''temp'')))
       (\<lambda>temp.
     py_bind (py_bind (getitem_key payload (ustr ''main'')) (\<lambda>m. getitem_key m (ustr ''humidity'')))
       (\<lambda>humidity.
     py_bind (py_bind (getitem_key payload (ustr ''wind'')) (\<lambda>wi. getitem_key wi (ustr ''speed'')))
       (\<lambda>wind_speed.
     py_bind (py_bind (py_bind (getitem_key payload (ustr ''weather'')) (\<lambda>ws. getitem_idx ws 0))
                (\<lambda>w0. getitem_key w0 (ustr ''description'')))
       (\<lambda>description.
     py_bind (getitem_key payload (ustr ''dt''))
       (\<lambda>timestamp.
     Inr [(ustr ''city'', json_of_name name),
          (ustr ''lat'', JFloat la),
          (ustr ''lon'', JFloat lo),
          (ustr ''temp'', temp),
          (ustr ''humidity'', humidity),
          (ustr ''wind_speed'', wind_speed),
          (ustr ''description'', description),
          (ustr ''timestamp'', timestamp)])))))"

section \<open>Storage writer\<close>

subsection \<open>json.dumps\<close>

text \<open>
  Decimal digits of a number, as \<open>str(int)\<close> prints them.
\<close>

fun dec_digits :: "nat \<Rightarrow> ustring" where
  "dec_digits n = (if n < 10 then [48 + n] else dec_digits (n div 10) @ [48 + n mod 10])"

declare dec_digits.simps [simp del]

definition int_repr :: "int \<Rightarrow> ustring" where
  "int_repr i = (if i < 0 then 45 # dec_digits (nat (- i)) else dec_digits (nat i))"

text \<open>
  String escaping of the \<open>json\<close> module. Both modes write the two-character escapes for
  the quote, the backslash and \<open>\b \f \n \r \t\<close>. With \<open>ensure_ascii\<close> (the default)
  every other code point outside space..tilde becomes \<open>\uXXXX\<close>, a surrogate pair above
  the basic plane; without it only the control characters below space are escaped and
  everything else is copied.
\<close>

definition hex_digit :: "nat \<Rightarrow> nat" where
  "hex_digit d = (if d < 10 then 48 + d else 87 + d)"

definition u_escape :: "nat \<Rightarrow> ustring" where
  "u_escape c =
     [92, 117, hex_digit (c div 4096 mod 16), hex_digit (c div 256 mod 16),
      hex_digit (c div 16 mod 16), hex_digit (c mod 16)]"

definition short_escape :: "nat \<Rightarrow> ustring option" where
  "short_escape c =
     (if c = 34 then Some [92, 34]
      else if c = 92 then Some [92, 92]
      else if c = 8 then Some [92, 98]
      else if c = 12 then Some [92, 102]
      else if c = 10 then Some [92, 110]
      else if c = 13 then Some [92, 114]
      else if c = 9 then Some [92, 116]
      else None)"

definition escape_char :: "bool \<Rightarrow> nat \<Rightarrow> ustring" where
  "escape_char ensure_ascii c =
     (case short_escape c of
        Some e \<Rightarrow> e
      | None \<Rightarrow>
         (if ensure_ascii then
            (if 32 \<le> c \<and> c \<le> 126 then [c]
             else if c \<ge> 65536 then
               u_escape (55296 + (c - 65536) div 1024) @ u_escape (56320 + (c - 65536) mod 1024)
             else u_escape c)
          else (if c \<le> 31 then u_escape c else [c])))"

definition json_string :: "bool \<Rightarrow> ustring \<Rightarrow> ustring" where
  "json_string ensure_ascii s = [34] @ concat (map (escape_char ensure_ascii) s) @ [34]"

text \<open>Items joined by \<open>", "\<close>.\<close>

fun join_items :: "ustring list \<Rightarrow> ustring" where
  "join_items [] = []"
| "join_items [x] = x"
| "join_items (x # y # ys) = x @ [44, 32] @ join_items (y # ys)"

text \<open>\<open>json.dumps(value, ensure_ascii=...)\<close> with the default separators.\<close>

fun json_dumps :: "'f env \<Rightarrow> bool \<Rightarrow> 'f json \<Rightarrow> ustring"
  and json_dumps_list :: "'f env \<Rightarrow> bool \<Rightarrow> 'f json list \<Rightarrow> ustring list"
  and json_dumps_items :: "'f env \<Rightarrow> bool \<Rightarrow> (ustring \<times> 'f json) list \<Rightarrow> ustring list"
where
  "json_dumps E ea JNull = ustr ''null''"
| "json_dumps E ea (JBool b) = (if b then ustr ''true'' else ustr ''false'')"
| "json_dumps E ea (JInt i) = int_repr i"
| "json_dumps E ea (JFloat x) = float_repr E x"
| "json_dumps E ea (JStr s) = json_string ea s"
| "json_dumps E ea (JArr xs) = [91] @ join_items (json_dumps_list E ea xs) @ [93]"
| "json_dumps E ea (JObj kvs) = [123] @ join_items (json_dumps_items E ea kvs) @ [125]"
| "json_dumps_list E ea [] = []"
| "json_dumps_list E ea (x # xs) = json_dumps E ea x # json_dumps_list E ea xs"
| "json_dumps_items E ea [] = []"
| "json_dumps_items E ea ((k, v) # kvs) =
     (json_string ea k @ [58, 32] @ json_dumps E ea v) # json_dumps_items E ea kvs"

subsection \<open>str.encode("utf-8")\<close>

text \<open>One to four bytes for a code point; a surrogate cannot be encoded.\<close>

definition utf8_char :: "nat \<Rightarrow> py_error + nat list" where
  "utf8_char c =
     (if c < 128 then Inr [c]
      else if c < 2048 then Inr [192 + c div 64, 128 + c mod 64]
      else if 55296 \<le> c \<and> c \<le> 57343 then Inl UnicodeEncodeError
      else if c < 65536 then Inr [224 + c div 4096, 128 + c div 64 mod 64, 128 + c mod 64]
      else Inr [240 + c div 262144, 128 + c div 4096 mod 64, 128 + c div 64 mod 64,
                128 + c mod 64])"

fun utf8_encode :: "ustring \<Rightarrow> py_error + nat list" where
  "utf8_encode [] = Inr []"
| "utf8_encode (c # cs) =
     (case utf8_char c of
        Inl e \<Rightarrow> Inl e
      | Inr bs \<Rightarrow> (case utf8_encode cs of Inl e \<Rightarrow> Inl e | Inr rest \<Rightarrow> Inr (bs @ rest)))"

text \<open>
  \<^verbatim>\<open>
  def upload_json_to_s3(s3_client, bucket, key, data):
      body = json.dumps(data, ensure_ascii=False).encode("utf-8")
      s3_client.put_object(Bucket=bucket, Key=key, Body=body)
      logger.info("Uploaded to s3://%s/%s", bucket, key)
  \<close>
\<close>

definition upload_body :: "'f env \<Rightarrow> (ustring \<times> 'f json) list \<Rightarrow> py_error + nat list" where
  "upload_body E data = utf8_encode (json_dumps E False (JObj data))"

definition upload_json_to_s3 ::
  "'f env \<Rightarrow> ustring \<Rightarrow> ustring \<Rightarrow> (ustring \<times> 'f json) list \<Rightarrow> 'f world
     \<Rightarrow> (py_error + unit) \<times> 'f world"
where
  "upload_json_to_s3 E bucket key data w =
     (case upload_body E data of
        Inl e \<Rightarrow> (Inl e, w)
      | Inr body \<Rightarrow>
         (case s3_put E (length (puts w)) bucket key body of
            Some e \<Rightarrow> (Inl e, put_called bucket key body w)
          | None \<Rightarrow> (Inr (), log_event (Info_uploaded bucket key) (put_called bucket key body w))))"

subsection \<open>Storage key\<close>

text \<open>\<open>strftime("%Y-%m-%d_%H-%M-%S")\<close>: the year on four digits, the other fields on two,
  padded with zeros. (The clock of a running system shows a year of four digits; how a
  year below 1000 is padded is left to the C library.)\<close>

definition zero_pad :: "nat \<Rightarrow> nat \<Rightarrow> ustring" where
  "zero_pad width n = replicate (width - length (dec_digits n)) 48 @ dec_digits n"

definition strftime_key :: "datetime \<Rightarrow> ustring" where
  "strftime_key t =
     zero_pad 4 (year t) @ [45] @ zero_pad 2 (month t) @ [45] @ zero_pad 2 (day t) @ [95] @
     zero_pad 2 (hour t) @ [45] @ zero_pad 2 (minute t) @ [45] @ zero_pad 2 (second t)"

text \<open>\<open>str.replace\<close> of one character by another, and \<open>str.lower\<close>: on a pure ASCII string
  the letters A..Z move to a..z; otherwise Python's Unicode case mapping applies.\<close>

definition replace_char :: "nat \<Rightarrow> nat \<Rightarrow> ustring \<Rightarrow> ustring" where
  "replace_char old new s = map (\<lambda>c. if c = old then new else c) s"

definition ascii_lower :: "nat \<Rightarrow> nat" where
  "ascii_lower c = (if 65 \<le> c \<and> c \<le> 90 then c + 32 else c)"

definition py_lower :: "'f env \<Rightarrow> ustring \<Rightarrow> ustring" where
  "py_lower E s = (if list_all (\<lambda>c. c < 128) s then map ascii_lower s else unicode_lower E s)"

text \<open>
  \<^verbatim>\<open>
  def build_s3_key(prefix, city_name):
      timestamp = datetime.utcnow().strftime("%Y-%m-%d_%H-%M-%S")
      safe_city = city_name.replace(" ", "_").lower()
      return f"{prefix}{safe_city}/weather_{timestamp}.json"
  \<close>
\<close>

definition build_s3_key :: "'f env \<Rightarrow> ustring \<Rightarrow> ustring \<Rightarrow> 'f world \<Rightarrow> ustring \<times> 'f world" where
  "build_s3_key E prefix city_name w =
     (let timestamp = strftime_key (utcnow E (clock_reads w));
          safe_city = py_lower E (replace_char 32 95 city_name)
      in (prefix @ safe_city @ ustr ''/weather_'' @ timestamp @ ustr ''.json'', clock_read w))"

section \<open>Run orchestrator\<close>

text \<open>The namespace \<open>parse_args()\<close> returns. An option that was not given is \<open>None\<close>.\<close>

record 'f args =
  arg_locations :: "ustring option"
  arg_config :: "ustring option"
  arg_location :: "ustring option"
  arg_lat :: "'f option"
  arg_lon :: "'f option"
  arg_s3_bucket :: ustring
  arg_dry_run :: bool

definition S3_RAW_PREFIX :: ustring where
  "S3_RAW_PREFIX = ustr ''raw/weather/''"

text \<open>How \<open>main\<close> ends: it returns, it calls \<open>sys.exit\<close>, or an exception leaves it. The
  interpreter turns an exception that nothing caught into exit status 1.\<close>

datatype outcome = Completed | SysExit nat | Uncaught py_error

fun exit_code :: "outcome \<Rightarrow> nat" where
  "exit_code Completed = 0"
| "exit_code (SysExit n) = n"
| "exit_code (Uncaught e) = 1"

text \<open>The test \<open>if x:\<close> on an optional string holds for a string that is not empty.\<close>

fun truthy :: "ustring option \<Rightarrow> ustring option" where
  "truthy None = None"
| "truthy (Some []) = None"
| "truthy (Some (c # cs)) = Some (c # cs)"

type_synonym 'f named_locations = "(ustring option \<times> ('f \<times> 'f)) list"

definition named :: "'f locations \<Rightarrow> 'f named_locations" where
  "named locs = map (\<lambda>(name, coords). (Some name, coords)) locs"

text \<open>
  \<^verbatim>\<open>
  if args.locations:
      locations = parse_locations_arg(args.locations)
  elif args.config:
      locations = load_locations_from_file(args.config)
  else:
      if args.lat is None or args.lon is None:
          logger.error("--location requires --lat and --lon")
          sys.exit(1)
      locations = {args.location: (args.lat, args.lon)}
  \<close>
\<close>

definition resolve_locations ::
  "'f env \<Rightarrow> 'f args \<Rightarrow> 'f world \<Rightarrow> (outcome + 'f named_locations) \<times> 'f world"
where
  "resolve_locations E args w =
     (case truthy (arg_locations args) of
        Some locations_arg \<Rightarrow>
          (case parse_locations_arg E locations_arg w of
             (Inl e, w') \<Rightarrow> (Inl (Uncaught e), w')
           | (Inr locs, w') \<Rightarrow> (Inr (named locs), w'))
      | None \<Rightarrow>
          (case truthy (arg_config args) of
             Some path \<Rightarrow>
               (case load_locations_from_file E path of
                  Inl e \<Rightarrow> (Inl (Uncaught e), w)
                | Inr locs \<Rightarrow> (Inr (named locs), w))
           | None \<Rightarrow>
               (case arg_lat args of
                  None \<Rightarrow> (Inl (SysExit 1), log_event Err_location_requires_lat_lon w)
                | Some la \<Rightarrow>
                    (case arg_lon args of
                       None \<Rightarrow> (Inl (SysExit 1), log_event Err_location_requires_lat_lon w)
                     | Some lo \<Rightarrow> (Inr [(arg_location args, (la, lo))], w)))))"

text \<open>The number the dry run logs: \<open>len(json.dumps(data_to_store))\<close>.\<close>

definition dry_run_size :: "'f env \<Rightarrow> (ustring \<times> 'f json) list \<Rightarrow> nat" where
  "dry_run_size E data = length (json_dumps E True (JObj data))"

text \<open>
  The body of the loop over the locations, lines 135 to 166. The result is \<open>None\<close> when the
  loop goes on to the next location and \<open>Some e\<close> when the exception \<open>e\<close> leaves the loop.
  Only the call of \<open>call_current_weather\<close> and the call of \<open>upload_json_to_s3\<close> stand in
  a \<open>try\<close>. Calling \<open>build_s3_key\<close> with the name \<open>None\<close> reads the clock and then fails on
  \<open>None.replace\<close>.
\<close>

definition process_location ::
  "'f env \<Rightarrow> 'f args \<Rightarrow> ustring \<Rightarrow> ustring option \<times> ('f \<times> 'f) \<Rightarrow> 'f world
     \<Rightarrow> py_error option \<times> 'f world"
where
  "process_location E args api_key loc w =
     (case loc of (name, (la, lo)) \<Rightarrow>
        (case call_current_weather E la lo api_key (log_event (Info_fetching name la lo) w) of
           (Inl e, w1) \<Rightarrow> (None, log_event (Exc_failed_fetch name e) w1)
         | (Inr payload, w1) \<Rightarrow>
             (case shape name la lo payload of
                Inl e \<Rightarrow> (Some e, w1)
              | Inr data_to_store \<Rightarrow>
                  (if arg_dry_run args then
                     (None, log_event (Info_dry_run name (dry_run_size E data_to_store)) w1)
                   else
                     (case name of
                        None \<Rightarrow> (Some AttributeError, clock_read w1)
                      | Some city \<Rightarrow>
                          (case build_s3_key E S3_RAW_PREFIX city w1 of
                             (key, w2) \<Rightarrow>
                               (case upload_json_to_s3 E (arg_s3_bucket args) key data_to_store w2 of
                                  (Inl e, w3) \<Rightarrow> (None, log_event (Exc_failed_upload name) w3)
                                | (Inr u, w3) \<Rightarrow> (None, w3))))))))"

fun process_locations ::
  "'f env \<Rightarrow> 'f args \<Rightarrow> ustring \<Rightarrow> 'f named_locations \<Rightarrow> 'f world \<Rightarrow> py_error option \<times> 'f world"
where
  "process_locations E args api_key [] w = (None, w)"
| "process_locations E args api_key (loc # rest) w =
     (case process_location E args api_key loc w of
        (Some e, w') \<Rightarrow> (Some e, w')
      | (None, w') \<Rightarrow> process_locations E args api_key rest w')"

text \<open>
  \<open>main\<close> after \<open>parse_args()\<close>, with the value of the environment variable
  \<open>OPENWEATHER_API_KEY\<close> (\<open>None\<close> when unset). Creating the S3 client sends nothing.
\<close>

definition main :: "'f env \<Rightarrow> ustring option \<Rightarrow> 'f args \<Rightarrow> 'f world \<Rightarrow> outcome \<times> 'f world" where
  "main E OPENWEATHER_API_KEY args w =
     (case truthy OPENWEATHER_API_KEY of
        None \<Rightarrow> (SysExit 1, log_event Err_no_api_key w)
      | Some api_key \<Rightarrow>
          (case resolve_locations E args w of
             (Inl out, w1) \<Rightarrow> (out, w1)
           | (Inr locs, w1) \<Rightarrow>
               (case process_locations E args api_key locs
                       (log_event (Info_found (length locs) (map fst locs)) w1) of
                  (Some e, w2) \<Rightarrow> (Uncaught e, w2)
                | (None, w2) \<Rightarrow> (Completed, log_event Info_complete w2))))"

section \<open>Notions used to state the properties\<close>

text \<open>
  The field paths of a raw response, read as the specification describes them: a field of
  a mapping, the first entry of a list. These are not part of the script; the theorems
  compare \<open>shape\<close> with them.
\<close>

fun field :: "'f json \<Rightarrow> ustring \<Rightarrow> 'f json option" where
  "field (JObj d) k = map_of d k"
| "field JNull k = None"
| "field (JBool b) k = None"
| "field (JInt n) k = None"
| "field (JFloat x) k = None"
| "field (JStr s) k = None"
| "field (JArr xs) k = None"

fun first_entry :: "'f json \<Rightarrow> 'f json option" where
  "first_entry (JArr (x # xs)) = Some x"
| "first_entry (JArr []) = None"
| "first_entry JNull = None"
| "first_entry (JBool b) = None"
| "first_entry (JInt n) = None"
| "first_entry (JFloat x) = None"
| "first_entry (JStr s) = None"
| "first_entry (JObj d) = None"

definition path_main_temp :: "'f json \<Rightarrow> 'f json option" where
  "path_main_temp p = Option.bind (field p (ustr ''main'')) (\<lambda>m. field m (ustr ''temp''))"

definition path_main_humidity :: "'f json \<Rightarrow> 'f json option" where
  "path_main_humidity p = Option.bind (field p (ustr ''main'')) (\<lambda>m. field m (ustr ''humidity''))"

definition path_wind_speed :: "'f json \<Rightarrow> 'f json option" where
  "path_wind_speed p = Option.bind (field p (ustr ''wind'')) (\<lambda>m. field m (ustr ''speed''))"

definition path_weather0_description :: "'f json \<Rightarrow> 'f json option" where
  "path_weather0_description p =
     Option.bind (Option.bind (field p (ustr ''weather'')) first_entry)
       (\<lambda>m. field m (ustr ''description''))"

definition path_dt :: "'f json \<Rightarrow> 'f json option" where
  "path_dt p = field p (ustr ''dt'')"

text \<open>A response that has the five paths.\<close>

definition well_shaped :: "'f json \<Rightarrow> bool" where
  "well_shaped p \<longleftrightarrow>
     path_main_temp p \<noteq> None \<and> path_main_humidity p \<noteq> None \<and> path_wind_speed p \<noteq> None \<and>
     path_weather0_description p \<noteq> None \<and> path_dt p \<noteq> None"

text \<open>The response is a nested mapping: it is a mapping, \<open>main\<close> and \<open>wind\<close> are mappings
  where present, \<open>weather\<close> is a list where present and its first entry, if any, is a
  mapping.\<close>

fun is_mapping :: "'f json \<Rightarrow> bool" where
  "is_mapping (JObj d) = True"
| "is_mapping JNull = False"
| "is_mapping (JBool b) = False"
| "is_mapping (JInt n) = False"
| "is_mapping (JFloat x) = False"
| "is_mapping (JStr s) = False"
| "is_mapping (JArr xs) = False"

fun is_list_of_mappings :: "'f json \<Rightarrow> bool" where
  "is_list_of_mappings (JArr []) = True"
| "is_list_of_mappings (JArr (x # xs)) = is_mapping x"
| "is_list_of_mappings JNull = False"
| "is_list_of_mappings (JBool b) = False"
| "is_list_of_mappings (JInt n) = False"
| "is_list_of_mappings (JFloat x) = False"
| "is_list_of_mappings (JStr s) = False"
| "is_list_of_mappings (JObj d) = False"

definition nested_mapping :: "'f json \<Rightarrow> bool" where
  "nested_mapping p \<longleftrightarrow>
     is_mapping p \<and>
     (case field p (ustr ''main'') of None \<Rightarrow> True | Some m \<Rightarrow> is_mapping m) \<and>
     (case field p (ustr ''wind'') of None \<Rightarrow> True | Some m \<Rightarrow> is_mapping m) \<and>
     (case field p (ustr ''weather'') of None \<Rightarrow> True | Some ws \<Rightarrow> is_list_of_mappings ws)"

text \<open>The record the specification describes.\<close>

definition normalized_record ::
  "ustring option \<Rightarrow> 'f \<Rightarrow> 'f \<Rightarrow> 'f json \<Rightarrow> 'f json \<Rightarrow> 'f json \<Rightarrow> 'f json \<Rightarrow> 'f json
     \<Rightarrow> (ustring \<times> 'f json) list"
where
  "normalized_record name la lo temp humidity wind_speed description timestamp =
     [(ustr ''city'', json_of_name name),
      (ustr ''lat'', JFloat la),
      (ustr ''lon'', JFloat lo),
      (ustr ''temp'', temp),
      (ustr ''humidity'', humidity),
      (ustr ''wind_speed'', wind_speed),
      (ustr ''description'', description),
      (ustr ''timestamp'', timestamp)]"

text \<open>A lookup error is a \<open>KeyError\<close> or an \<open>IndexError\<close> (Python's \<open>LookupError\<close>).\<close>

fun is_lookup_error :: "py_error \<Rightarrow> bool" where
  "is_lookup_error KeyError = True"
| "is_lookup_error IndexError = True"
| "is_lookup_error e = False"

text \<open>All code points of the strings of a value, keys included.\<close>

fun json_chars :: "'f json \<Rightarrow> nat list"
  and json_chars_list :: "'f json list \<Rightarrow> nat list"
  and json_chars_items :: "(ustring \<times> 'f json) list \<Rightarrow> nat list"
where
  "json_chars JNull = []"
| "json_chars (JBool b) = []"
| "json_chars (JInt i) = []"
| "json_chars (JFloat x) = []"
| "json_chars (JStr s) = s"
| "json_chars (JArr xs) = json_chars_list xs"
| "json_chars (JObj kvs) = json_chars_items kvs"
| "json_chars_list [] = []"
| "json_chars_list (x # xs) = json_chars x @ json_chars_list xs"
| "json_chars_items [] = []"
| "json_chars_items ((k, v) # kvs) = k @ json_chars v @ json_chars_items kvs"

text \<open>An entry of a configuration file is a name with a two-element array, and the
  location read from it carries the two elements converted by \<open>float\<close>.\<close>

definition coords_of :: "'f env \<Rightarrow> ustring \<times> 'f json \<Rightarrow> ustring \<times> ('f \<times> 'f) \<Rightarrow> bool" where
  "coords_of E item loc \<longleftrightarrow>
     (case item of (name, coords) \<Rightarrow>
        (case coords of
           JArr [a, b] \<Rightarrow>
             (case (py_float E a, py_float E b) of
                (Inr x, Inr y) \<Rightarrow> loc = (name, (x, y))
              | _ \<Rightarrow> False)
         | _ \<Rightarrow> False))"

text \<open>The number of bytes of a code point in UTF-8, the bytes of a string, and by how many
  characters the default escaping of a code point is longer than the bytes of its escaping
  with \<open>ensure_ascii=False\<close>.\<close>

definition utf8_len :: "nat \<Rightarrow> nat" where
  "utf8_len c = (if c < 128 then 1 else if c < 2048 then 2 else if c < 65536 then 3 else 4)"

definition bytes_len :: "ustring \<Rightarrow> nat" where
  "bytes_len s = sum_list (map utf8_len s)"

definition char_surplus :: "nat \<Rightarrow> nat" where
  "char_surplus c = length (escape_char True c) - bytes_len (escape_char False c)"

definition surplus :: "ustring \<Rightarrow> nat" where
  "surplus s = sum_list (map char_surplus s)"

text \<open>The clock reading fits the widths of the timestamp (a year of four digits, the
  other fields below 100), and the text \<open>YYYY-MM-DD_HH-MM-SS\<close> written digit by digit
  from the fields of the reading.\<close>

definition fields_fit :: "datetime \<Rightarrow> bool" where
  "fields_fit t \<longleftrightarrow>
     1000 \<le> year t \<and> year t < 10000 \<and> month t < 100 \<and> day t < 100 \<and> hour t < 100 \<and>
     minute t < 100 \<and> second t < 100"

abbreviation timestamp_digits :: "datetime \<Rightarrow> ustring" where
  "timestamp_digits t \<equiv>
     [48 + year t div 1000, 48 + year t div 100 mod 10, 48 + year t div 10 mod 10,
      48 + year t mod 10, 45,
      48 + month t div 10, 48 + month t mod 10, 45,
      48 + day t div 10, 48 + day t mod 10, 95,
      48 + hour t div 10, 48 + hour t mod 10, 45,
      48 + minute t div 10, 48 + minute t mod 10, 45,
      48 + second t div 10, 48 + second t mod 10]"

section \<open>A concrete runtime for the examples\<close>

text \<open>
  The examples run with floats of integral value, written as integers: \<open>float(i)\<close> is
  exact, \<open>repr\<close> prints \<open>10.0\<close> for ten, and \<open>float(s)\<close> reads a string of digits. Names are
  ASCII, so the Unicode case mapping is never consulted. The clock stands at
  2024-01-02 03:04:05, no file exists, every request times out and every \<open>put_object\<close>
  succeeds, unless an example says otherwise.
\<close>

definition demo_float_of_str :: "ustring \<Rightarrow> int option" where
  "demo_float_of_str s =
     (if s \<noteq> [] \<and> list_all (\<lambda>c. 48 \<le> c \<and> c \<le> 57) s
      then Some (foldl (\<lambda>a c. 10 * a + int (c - 48)) 0 s) else None)"

definition demo_env :: "int env" where
  "demo_env =
     \<lparr>float_of_str = demo_float_of_str,
      float_of_int = Some,
      float_repr = (\<lambda>x. int_repr x @ ustr ''.0''),
      unicode_lower = (\<lambda>s. s),
      read_json = (\<lambda>path. Inl OSError),
      http_get = (\<lambda>n la lo api_key. Http_raises (RequestException n)),
      utcnow = (\<lambda>n. \<lparr>year = 2024, month = 1, day = 2, hour = 3, minute = 4, second = 5,
                     microsecond = 0\<rparr>),
      s3_put = (\<lambda>n bucket key body. None)\<rparr>"

definition demo_args :: "int args" where
  "demo_args =
     \<lparr>arg_locations = None, arg_config = Some (ustr ''config/locations.json''),
      arg_location = None, arg_lat = None, arg_lon = None,
      arg_s3_bucket = ustr ''weather-flights-data-lake-project'', arg_dry_run = False\<rparr>"

text \<open>A response of the documented shape, and the two locations of a configuration file.\<close>

definition demo_payload :: "ustring \<Rightarrow> int json" where
  "demo_payload description =
     JObj [(ustr ''main'', JObj [(ustr ''temp'', JInt 21), (ustr ''humidity'', JInt 60)]),
           (ustr ''wind'', JObj [(ustr ''speed'', JInt 3)]),
           (ustr ''weather'', JArr [JObj [(ustr ''description'', JStr description)]]),
           (ustr ''dt'', JInt 1700000000)]"

definition demo_config :: "int json" where
  "demo_config =
     JObj [(ustr ''a'', JArr [JInt 1, JInt 2]), (ustr ''b'', JArr [JInt 3, JInt 4])]"

text \<open>A client whose first two requests fail and whose later requests succeed.\<close>

definition flaky_env :: "int env" where
  "flaky_env = demo_env\<lparr>http_get := (\<lambda>n la lo api_key.
      if n < 2 then Http_raises (RequestException n) else Http_ok (demo_payload (ustr ''clear sky'')))\<rparr>"

text \<open>A configuration file holding \<open>{"x": [10.0, 20.0]}\<close>.\<close>

definition config_env :: "int env" where
  "config_env = demo_env\<lparr>read_json := (\<lambda>path.
      if path = ustr ''config/locations.json''
      then Inr (JObj [(ustr ''x'', JArr [JFloat 10, JFloat 20])]) else Inl OSError)\<rparr>"

text \<open>Responses that lack a field: \<open>main\<close> is \<open>null\<close>; \<open>dt\<close> is missing.\<close>

definition null_main_payload :: "int json" where
  "null_main_payload =
     JObj [(ustr ''main'', JNull),
           (ustr ''wind'', JObj [(ustr ''speed'', JInt 3)]),
           (ustr ''weather'', JArr [JObj [(ustr ''description'', JStr (ustr ''clear sky''))]]),
           (ustr ''dt'', JInt 1700000000)]"

definition no_dt_payload :: "int json" where
  "no_dt_payload =
     JObj [(ustr ''main'', JObj [(ustr ''temp'', JInt 21), (ustr ''humidity'', JInt 60)]),
           (ustr ''wind'', JObj [(ustr ''speed'', JInt 3)]),
           (ustr ''weather'', JArr [JObj [(ustr ''description'', JStr (ustr ''clear sky''))]])]"

text \<open>A response whose description has two accented letters, and its record.\<close>

definition accent_payload :: "int json" where
  "accent_payload = demo_payload [99, 105, 101, 108, 32, 100, 233, 103, 97, 103, 233]"

definition accent_record :: "(ustring \<times> int json) list" where
  "accent_record =
     normalized_record (Some (ustr ''paris'')) 48 2 (JInt 21) (JInt 60) (JInt 3)
       (JStr [99, 105, 101, 108, 32, 100, 233, 103, 97, 103, 233]) (JInt 1700000000)"

text \<open>Runs of the examples: the flag \<open>--dry-run\<close>; a service that answers every request
  with the clear-sky response, with the two-location configuration file in place; the same
  where the first answer lacks \<open>dt\<close>; a service that answers with the accented
  description.\<close>

definition dry_run_args :: "int args" where
  "dry_run_args = demo_args\<lparr>arg_dry_run := True\<rparr>"

definition sunny_env :: "int env" where
  "sunny_env = demo_env
     \<lparr>read_json := (\<lambda>path. Inr demo_config),
      http_get := (\<lambda>n la lo api_key. Http_ok (demo_payload (ustr ''clear sky'')))\<rparr>"

definition no_dt_env :: "int env" where
  "no_dt_env = demo_env
     \<lparr>read_json := (\<lambda>path. Inr demo_config),
      http_get := (\<lambda>n la lo api_key.
        if n = 0 then Http_ok no_dt_payload else Http_ok (demo_payload (ustr ''clear sky'')))\<rparr>"

definition accent_env :: "int env" where
  "accent_env = demo_env\<lparr>http_get := (\<lambda>n la lo api_key. Http_ok accent_payload)\<rparr>"

text \<open>A service whose first three requests time out and whose later requests succeed, with
  the two-location configuration file in place.\<close>

definition half_env :: "int env" where
  "half_env = demo_env
     \<lparr>read_json := (\<lambda>path. Inr demo_config),
      http_get := (\<lambda>n la lo api_key.
        if n < 3 then Http_raises (RequestException n)
        else Http_ok (demo_payload (ustr ''clear sky'')))\<rparr>"

text \<open>The single-location form without coordinates.\<close>

definition single_args :: "int args" where
  "single_args =
     \<lparr>arg_locations = None, arg_config = None, arg_location = Some (ustr ''ottawa''),
      arg_lat = None, arg_lon = None,
      arg_s3_bucket = ustr ''weather-flights-data-lake-project'', arg_dry_run = False\<rparr>"

text \<open>The clock one second after the clock of the examples.\<close>

definition second_clock :: datetime where
  "second_clock = \<lparr>year = 2024, month = 1, day = 2, hour = 3, minute = 4, second = 6,
     microsecond = 0\<rparr>"


section \<open>Effects on the world\<close>

lemma world_simps [simp]:
  "requests_made (log_event e w) = requests_made w"
  "sleeps (log_event e w) = sleeps w"
  "clock_reads (log_event e w) = clock_reads w"
  "puts (log_event e w) = puts w"
  "logs (log_event e w) = logs w @ [e]"
  "requests_made (request_sent w) = Suc (requests_made w)"
  "sleeps (request_sent w) = sleeps w"
  "clock_reads (request_sent w) = clock_reads w"
  "puts (request_sent w) = puts w"
  "logs (request_sent w) = logs w"
  "requests_made (time_sleep n w) = requests_made w"
  "sleeps (time_sleep n w) = sleeps w @ [n]"
  "clock_reads (time_sleep n w) = clock_reads w"
  "puts (time_sleep n w) = puts w"
  "logs (time_sleep n w) = logs w"
  "requests_made (clock_read w) = requests_made w"
  "sleeps (clock_read w) = sleeps w"
  "clock_reads (clock_read w) = Suc (clock_reads w)"
  "puts (clock_read w) = puts w"
  "logs (clock_read w) = logs w"
  "requests_made (put_called b k body w) = requests_made w"
  "sleeps (put_called b k body w) = sleeps w"
  "clock_reads (put_called b k body w) = clock_reads w"
  "puts (put_called b k body w) = puts w @ [(b, k, body)]"
  "logs (put_called b k body w) = logs w"
  by (simp_all add: log_event_def request_sent_def time_sleep_def clock_read_def put_called_def)

section \<open>Properties of the location resolver\<close>

lemma split_on_no_sep: "t \<in> set (split_on sep s) \<Longrightarrow> sep \<notin> set t"
  by (induction s arbitrary: t) (auto split: if_splits list.splits)

lemma split_once_no_sep: "sep \<notin> set s \<Longrightarrow> split_once sep s = [s]"
proof -
  assume "sep \<notin> set s"
  then have d: "dropWhile (\<lambda>c. c \<noteq> sep) s = []"
    by (induction s) auto
  show ?thesis
    unfolding split_once_def d by simp
qed

lemma split_once_eq_parts:
  "sep \<in> set s \<Longrightarrow> \<exists>a b. split_once sep s = [a, b] \<and> set b \<subseteq> set s"
proof -
  assume "sep \<in> set s"
  then have "dropWhile (\<lambda>c. c \<noteq> sep) s \<noteq> []"
    by (induction s) auto
  then obtain x rest where d: "dropWhile (\<lambda>c. c \<noteq> sep) s = x # rest"
    by (cases "dropWhile (\<lambda>c. c \<noteq> sep) s") auto
  have "set (dropWhile (\<lambda>c. c \<noteq> sep) s) \<subseteq> set s"
    by (rule set_dropWhileD [THEN subsetI])
  with d have "set rest \<subseteq> set s"
    by auto
  then show ?thesis
    unfolding split_once_def d by simp
qed

text \<open>A token that holds \<open>=\<close> and no comma stops the parse with \<open>ValueError\<close>: its
  coordinates cannot be unpacked into latitude and longitude.\<close>

lemma parse_pairs_eq_token:
  assumes "of_char CHR ''='' \<in> set pair" and "of_char CHR '','' \<notin> set pair"
  shows "parse_pairs E (pair # rest) locations w = (Inl ValueError, w)"
proof -
  obtain a b where ab: "split_once (of_char CHR ''='') pair = [a, b]" and sub: "set b \<subseteq> set pair"
    using split_once_eq_parts [OF assms(1)] by blast
  from sub assms(2) have "of_char CHR '','' \<notin> set b"
    by auto
  then have "split_once (of_char CHR '','') b = [b]"
    by (rule split_once_no_sep)
  with ab assms(1) show ?thesis
    by (simp add: unpack2_def)
qed

lemma parse_pairs_raises:
  assumes "\<forall>t \<in> set toks. of_char CHR '','' \<notin> set t"
    and "\<exists>t \<in> set toks. of_char CHR ''='' \<in> set t"
  shows "\<exists>w'. parse_pairs E toks locations w = (Inl ValueError, w')"
  using assms
proof (induction toks arbitrary: locations w)
  case Nil
  then show ?case by simp
next
  case (Cons t toks)
  show ?case
  proof (cases "of_char CHR ''='' \<in> set t")
    case True
    moreover from Cons.prems(1) have "of_char CHR '','' \<notin> set t"
      by simp
    ultimately show ?thesis
      using parse_pairs_eq_token by blast
  next
    case False
    with Cons.prems have "\<forall>t \<in> set toks. of_char CHR '','' \<notin> set t"
      and "\<exists>t \<in> set toks. of_char CHR ''='' \<in> set t"
      by auto
    from Cons.IH [OF this] False show ?thesis
      by simp
  qed
qed

lemma set_split_on: "c \<in> set s \<Longrightarrow> c \<noteq> sep \<Longrightarrow> \<exists>t \<in> set (split_on sep s). c \<in> set t"
  by (induction s) (auto split: if_splits list.splits)

lemma split_on_nonempty: "split_on sep s \<noteq> []"
  by (induction s) (auto split: list.splits)

lemma split_on_subset: "t \<in> set (split_on sep s) \<Longrightarrow> set t \<subseteq> set s"
proof (induction s arbitrary: t)
  case Nil
  then show ?case by simp
next
  case (Cons c s)
  show ?case
  proof (cases "c = sep")
    case True
    with Cons.prems have "t = [] \<or> t \<in> set (split_on sep s)"
      by simp
    with Cons.IH show ?thesis
      by auto
  next
    case False
    obtain u us where u: "split_on sep s = u # us"
      using split_on_nonempty [of sep s] by (cases "split_on sep s") auto
    with False Cons.prems have "t = c # u \<or> t \<in> set us"
      by simp
    moreover have "set u \<subseteq> set s" "\<forall>v \<in> set us. set v \<subseteq> set s"
      using Cons.IH u by simp_all
    ultimately show ?thesis
      by auto
  qed
qed

text \<open>Every inline string that holds \<open>=\<close> raises \<open>ValueError\<close>; a string without \<open>=\<close>
  gives the empty dictionary and a warning for each token.\<close>

lemma parse_locations_arg_raises:
  assumes "of_char CHR ''='' \<in> set s"
  shows "\<exists>w'. parse_locations_arg E s w = (Inl ValueError, w')"
proof -
  have "(of_char CHR ''='' :: nat) \<noteq> of_char CHR '',''"
    by simp
  with assms have "\<exists>t \<in> set (split_on (of_char CHR '','') s). of_char CHR ''='' \<in> set t"
    by (rule set_split_on)
  moreover have "\<forall>t \<in> set (split_on (of_char CHR '','') s). of_char CHR '','' \<notin> set t"
    using split_on_no_sep by blast
  ultimately show ?thesis
    unfolding parse_locations_arg_def by (intro parse_pairs_raises)
qed

lemma parse_pairs_no_eq:
  assumes "\<forall>t \<in> set toks. of_char CHR ''='' \<notin> set t"
  shows "fst (parse_pairs E toks locations w) = Inr locations"
  using assms by (induction toks arbitrary: w) simp_all

lemma parse_locations_arg_no_eq:
  assumes "of_char CHR ''='' \<notin> set s"
  shows "fst (parse_locations_arg E s w) = Inr []"
proof -
  from assms have "\<forall>t \<in> set (split_on (of_char CHR '','') s). of_char CHR ''='' \<notin> set t"
    using split_on_subset by blast
  then show ?thesis
    unfolding parse_locations_arg_def by (rule parse_pairs_no_eq)
qed

lemma parse_locations_arg_skips_token:
  "parse_locations_arg E (ustr ''c'') w = (Inr [], log_event (Warn_skip_token (ustr ''c'')) w)"
  by (simp add: parse_locations_arg_def ustr_def)

text \<open>Claim C2, on the code: the documented inline form \<open>name=lat,lon\<close> is never parsed.
  The string is first cut at every comma, so the token \<open>a=1.0\<close> has lost its longitude,
  and unpacking its coordinates raises \<open>ValueError\<close> before any location is stored.\<close>

theorem parse_locations_arg_documented_form_raises:
  "parse_locations_arg E (ustr ''a=1.0,2.0,b=3.0,4.0'') w = (Inl ValueError, w)"
  by (simp add: parse_locations_arg_def ustr_def split_once_def unpack2_def)

section \<open>Properties of the configuration loader\<close>

lemma dict_set_fresh: "k \<notin> fst ` set d \<Longrightarrow> dict_set d k v = d @ [(k, v)]"
  by (induction d) auto

lemma coords_ofD:
  assumes "coords_of E (name, coords) loc"
  obtains a b x y where "coords = JArr [a, b]" "py_float E a = Inr x" "py_float E b = Inr y"
    "loc = (name, (x, y))"
  using assms
  by (auto simp: coords_of_def split: json.splits list.splits sum.splits)

lemma load_items_pairs:
  assumes "list_all2 (coords_of E) items locs"
    and "distinct (map fst acc @ map fst items)"
  shows "load_items E items acc = Inr (acc @ locs)"
  using assms
proof (induction items locs arbitrary: acc rule: list_all2_induct)
  case Nil
  then show ?case by simp
next
  case (Cons item items loc locs)
  obtain name coords where item: "item = (name, coords)"
    by (cases item)
  from Cons.hyps(1) item obtain a b x y where v: "coords = JArr [a, b]"
    and fa: "py_float E a = Inr x" and fb: "py_float E b = Inr y" and loc: "loc = (name, (x, y))"
    by (auto elim: coords_ofD)
  from Cons.prems item have fresh: "name \<notin> fst ` set acc"
    by auto
  from Cons.prems item have "distinct (map fst (acc @ [(name, (x, y))]) @ map fst items)"
    by auto
  from Cons.IH [OF this] fresh v fa fb loc item show ?case
    by (simp add: dict_set_fresh)
qed

text \<open>Claim C8: loading a configuration file that holds a JSON object of names with
  two-element arrays returns the name with \<open>(float(lat), float(lon))\<close> for every entry,
  in the order of the file; a file holding \<open>{"x": [10.0, 20.0]}\<close> loads as
  \<open>{x: (10.0, 20.0)}\<close>.\<close>

theorem load_locations_from_file_object:
  "(read_json E path = Inr (JObj items) \<and> distinct (map fst items) \<and>
    list_all2 (coords_of E) items locs \<longrightarrow> load_locations_from_file E path = Inr locs) \<and>
   (read_json E path = Inr (JObj [(x, JArr [JFloat a, JFloat b])]) \<longrightarrow>
      load_locations_from_file E path = Inr [(x, (a, b))])"
proof (intro conjI impI)
  assume h: "read_json E path = Inr (JObj items) \<and> distinct (map fst items) \<and>
    list_all2 (coords_of E) items locs"
  then have "load_items E items [] = Inr ([] @ locs)"
    by (intro load_items_pairs) auto
  with h show "load_locations_from_file E path = Inr locs"
    by (simp add: load_locations_from_file_def)
next
  assume "read_json E path = Inr (JObj [(x, JArr [JFloat a, JFloat b])])"
  then show "load_locations_from_file E path = Inr [(x, (a, b))]"
    by (simp add: load_locations_from_file_def)
qed

text \<open>The file of the specification's example.\<close>

theorem load_locations_from_file_object_witness:
  "load_locations_from_file config_env (ustr ''config/locations.json'') = Inr [(ustr ''x'', (10, 20))]"
  using load_locations_from_file_object [of config_env "ustr ''config/locations.json''"
      "[(ustr ''x'', JArr [JFloat 10, JFloat 20])]" "[(ustr ''x'', (10, 20))]" "ustr ''x''" 10 20]
  by (simp add: config_env_def demo_env_def coords_of_def ustr_def)

section \<open>Properties of the weather client\<close>

declare retry_loop.simps [simp del]

lemma retry_loop_requests_bound:
  "requests_made (snd (retry_loop E la lo k attempt w)) \<le> requests_made w + (MAX_RETRIES - attempt)"
proof (induction E la lo k attempt w rule: retry_loop.induct)
  case (1 E la lo k attempt w)
  show ?case
  proof (cases "attempt < MAX_RETRIES")
    case False
    then show ?thesis by (subst retry_loop.simps) simp
  next
    case a: True
    show ?thesis
    proof (cases "http_get E (requests_made w) la lo k")
      case (Http_ok body)
      with a show ?thesis by (subst retry_loop.simps) simp
    next
      case (Http_raises exc)
      show ?thesis
      proof (cases "\<exists>n. exc = RequestException n")
        case False
        with a Http_raises show ?thesis
          by (subst retry_loop.simps) (cases exc; simp)
      next
        case True
        then obtain n where n: "exc = RequestException n" by blast
        show ?thesis
        proof (cases "attempt + 1 \<ge> MAX_RETRIES")
          case True
          with a Http_raises n show ?thesis
            by (subst retry_loop.simps) simp
        next
          case False
          from "1.IH" [OF a Http_raises n False] a False Http_raises n show ?thesis
            by (subst retry_loop.simps) simp
        qed
      qed
    qed
  qed
qed

lemma retry_two_failures_then_success:
  assumes "http_get E (requests_made w) la lo k = Http_raises (RequestException a)"
    and "http_get E (requests_made w + 1) la lo k = Http_raises (RequestException b)"
    and "http_get E (requests_made w + 2) la lo k = Http_ok body"
  shows "\<exists>w'. call_current_weather E la lo k w = (Inr body, w') \<and>
           sleeps w' = sleeps w @ [3, 6] \<and> requests_made w' = requests_made w + 3"
  using assms
  apply (simp add: call_current_weather_def)
  apply (subst retry_loop.simps, simp add: MAX_RETRIES_def RETRY_BACKOFF_SECONDS_def)
  apply (subst retry_loop.simps, simp add: MAX_RETRIES_def RETRY_BACKOFF_SECONDS_def)
  apply (subst retry_loop.simps, simp add: MAX_RETRIES_def RETRY_BACKOFF_SECONDS_def)
  done

lemma retry_three_failures:
  assumes "http_get E (requests_made w) la lo k = Http_raises (RequestException a)"
    and "http_get E (requests_made w + 1) la lo k = Http_raises (RequestException b)"
    and "http_get E (requests_made w + 2) la lo k = Http_raises (RequestException c)"
  shows "\<exists>w'. call_current_weather E la lo k w = (Inl (RequestException c), w') \<and>
           sleeps w' = sleeps w @ [3, 6] \<and> requests_made w' = requests_made w + 3"
  using assms
  apply (simp add: call_current_weather_def)
  apply (subst retry_loop.simps, simp add: MAX_RETRIES_def RETRY_BACKOFF_SECONDS_def)
  apply (subst retry_loop.simps, simp add: MAX_RETRIES_def RETRY_BACKOFF_SECONDS_def)
  apply (subst retry_loop.simps, simp add: MAX_RETRIES_def RETRY_BACKOFF_SECONDS_def)
  done

text \<open>Claim C3: \<open>call_current_weather\<close> sends at most three requests. When the first
  two requests fail with a \<open>RequestException\<close> and the third succeeds, it returns the decoded
  body of the third after sleeping 3 and then 6 seconds; when all three fail, it raises the
  error of the third after exactly three requests.\<close>

theorem call_current_weather_retry_policy:
  "requests_made (snd (call_current_weather E la lo k w)) \<le> requests_made w + 3 \<and>
   (http_get E (requests_made w) la lo k = Http_raises (RequestException a) \<and>
    http_get E (requests_made w + 1) la lo k = Http_raises (RequestException b) \<and>
    http_get E (requests_made w + 2) la lo k = Http_ok body \<longrightarrow>
      fst (call_current_weather E la lo k w) = Inr body \<and>
      sleeps (snd (call_current_weather E la lo k w)) = sleeps w @ [3, 6] \<and>
      requests_made (snd (call_current_weather E la lo k w)) = requests_made w + 3) \<and>
   (http_get E (requests_made w) la lo k = Http_raises (RequestException a) \<and>
    http_get E (requests_made w + 1) la lo k = Http_raises (RequestException b) \<and>
    http_get E (requests_made w + 2) la lo k = Http_raises (RequestException c) \<longrightarrow>
      fst (call_current_weather E la lo k w) = Inl (RequestException c) \<and>
      sleeps (snd (call_current_weather E la lo k w)) = sleeps w @ [3, 6] \<and>
      requests_made (snd (call_current_weather E la lo k w)) = requests_made w + 3)"
proof (intro conjI impI)
  show "requests_made (snd (call_current_weather E la lo k w)) \<le> requests_made w + 3"
    using retry_loop_requests_bound [of E la lo k 0 w]
    by (simp add: call_current_weather_def MAX_RETRIES_def)
next
  assume h: "http_get E (requests_made w) la lo k = Http_raises (RequestException a) \<and>
    http_get E (requests_made w + 1) la lo k = Http_raises (RequestException b) \<and>
    http_get E (requests_made w + 2) la lo k = Http_ok body"
  then obtain w' where w': "call_current_weather E la lo k w = (Inr body, w')"
    "sleeps w' = sleeps w @ [3, 6]" "requests_made w' = requests_made w + 3"
    using retry_two_failures_then_success [of E w la lo k a b body] by blast
  show "fst (call_current_weather E la lo k w) = Inr body" using w' by simp
  show "sleeps (snd (call_current_weather E la lo k w)) = sleeps w @ [3, 6]" using w' by simp
  show "requests_made (snd (call_current_weather E la lo k w)) = requests_made w + 3"
    using w' by simp
next
  assume h: "http_get E (requests_made w) la lo k = Http_raises (RequestException a) \<and>
    http_get E (requests_made w + 1) la lo k = Http_raises (RequestException b) \<and>
    http_get E (requests_made w + 2) la lo k = Http_raises (RequestException c)"
  then obtain w' where w': "call_current_weather E la lo k w = (Inl (RequestException c), w')"
    "sleeps w' = sleeps w @ [3, 6]" "requests_made w' = requests_made w + 3"
    using retry_three_failures [of E w la lo k a b c] by blast
  show "fst (call_current_weather E la lo k w) = Inl (RequestException c)" using w' by simp
  show "sleeps (snd (call_current_weather E la lo k w)) = sleeps w @ [3, 6]" using w' by simp
  show "requests_made (snd (call_current_weather E la lo k w)) = requests_made w + 3"
    using w' by simp
qed

text \<open>The retry policy on a client that fails twice and then answers, and on one that
  always fails.\<close>

theorem call_current_weather_retry_policy_witness:
  "fst (call_current_weather flaky_env 45 (-75) (ustr ''key'') world0) =
     Inr (demo_payload (ustr ''clear sky'')) \<and>
   sleeps (snd (call_current_weather flaky_env 45 (-75) (ustr ''key'') world0)) = [3, 6] \<and>
   requests_made (snd (call_current_weather flaky_env 45 (-75) (ustr ''key'') world0)) = 3 \<and>
   fst (call_current_weather demo_env 45 (-75) (ustr ''key'') world0) = Inl (RequestException 2) \<and>
   sleeps (snd (call_current_weather demo_env 45 (-75) (ustr ''key'') world0)) = [3, 6] \<and>
   requests_made (snd (call_current_weather demo_env 45 (-75) (ustr ''key'') world0)) = 3"
  using call_current_weather_retry_policy [of flaky_env 45 "-75" "ustr ''key''" world0 0 1
      "demo_payload (ustr ''clear sky'')" 0]
    call_current_weather_retry_policy [of demo_env 45 "-75" "ustr ''key''" world0 0 1
      JNull 2]
  by (simp add: flaky_env_def demo_env_def world0_def)

section \<open>Properties of the record shaper\<close>

lemma getitem_key_field: "getitem_key j k = Inr v \<longleftrightarrow> field j k = Some v"
  by (cases j) (auto split: option.splits)

lemma getitem_key_error: "getitem_key j k = Inl e \<Longrightarrow> e = KeyError \<or> e = TypeError"
  by (cases j) (auto split: option.splits)

lemma getitem_key_mapping_error: "is_mapping j \<Longrightarrow> getitem_key j k = Inl e \<Longrightarrow> e = KeyError"
  by (cases j) (auto split: option.splits)

lemma getitem_idx0_error:
  "getitem_idx j 0 = Inl e \<Longrightarrow> e = KeyError \<or> e = IndexError \<or> e = TypeError"
  by (cases j) (auto split: if_splits)

lemma getitem_idx0_list_error:
  "is_list_of_mappings j \<Longrightarrow> getitem_idx j 0 = Inl e \<Longrightarrow> e = IndexError"
  by (cases j rule: first_entry.cases) auto

lemma getitem_idx0_list_mapping:
  "is_list_of_mappings j \<Longrightarrow> getitem_idx j 0 = Inr v \<Longrightarrow> is_mapping v"
  by (cases j rule: first_entry.cases) auto

lemma first_entry_getitem: "first_entry j = Some v \<Longrightarrow> getitem_idx j 0 = Inr v"
  by (cases j rule: first_entry.cases) auto

lemma getitem_idx0_then_key:
  "getitem_idx j 0 = Inr w0 \<Longrightarrow> getitem_key w0 k = Inr v \<Longrightarrow> first_entry j = Some w0"
  by (cases j rule: first_entry.cases) (auto split: if_splits)

text \<open>The subscript chain \<open>p[a][b]\<close> against the path \<open>a.b\<close>.\<close>

lemma chain2_path:
  "py_bind (getitem_key p a) (\<lambda>m. getitem_key m b) = Inr v \<longleftrightarrow>
     Option.bind (field p a) (\<lambda>m. field m b) = Some v"
proof
  assume "py_bind (getitem_key p a) (\<lambda>m. getitem_key m b) = Inr v"
  then obtain m where "getitem_key p a = Inr m" "getitem_key m b = Inr v"
    by (auto simp: py_bind_def split: sum.splits)
  then show "Option.bind (field p a) (\<lambda>m. field m b) = Some v"
    by (simp add: getitem_key_field)
next
  assume "Option.bind (field p a) (\<lambda>m. field m b) = Some v"
  then obtain m where "field p a = Some m" "field m b = Some v"
    by (auto simp: bind_eq_Some_conv)
  then have "getitem_key p a = Inr m" "getitem_key m b = Inr v"
    by (simp_all add: getitem_key_field)
  then show "py_bind (getitem_key p a) (\<lambda>m. getitem_key m b) = Inr v"
    by (simp add: py_bind_def)
qed

lemma chain2_error:
  assumes "py_bind (getitem_key p a) (\<lambda>m. getitem_key m b) = Inl e"
  shows "(e = KeyError \<or> e = TypeError) \<and>
         (is_mapping p \<and> (case field p a of None \<Rightarrow> True | Some m \<Rightarrow> is_mapping m)
            \<longrightarrow> e = KeyError)"
proof (cases "getitem_key p a")
  case (Inl e')
  with assms have "e' = e" by (simp add: py_bind_def)
  with Inl show ?thesis
    by (auto dest: getitem_key_error getitem_key_mapping_error)
next
  case (Inr m)
  then have f: "field p a = Some m" by (simp add: getitem_key_field)
  from Inr assms have "getitem_key m b = Inl e" by (simp add: py_bind_def)
  with f show ?thesis
    by (auto dest: getitem_key_error getitem_key_mapping_error)
qed

text \<open>The chain \<open>p[a][0][b]\<close> against the path \<open>a[0].b\<close>.\<close>

lemma chain3_path:
  "py_bind (py_bind (getitem_key p a) (\<lambda>ws. getitem_idx ws 0)) (\<lambda>m. getitem_key m b) = Inr v
     \<longleftrightarrow> Option.bind (Option.bind (field p a) first_entry) (\<lambda>m. field m b) = Some v"
proof
  assume "py_bind (py_bind (getitem_key p a) (\<lambda>ws. getitem_idx ws 0)) (\<lambda>m. getitem_key m b) = Inr v"
  then obtain ws w0 where "getitem_key p a = Inr ws" "getitem_idx ws 0 = Inr w0"
    "getitem_key w0 b = Inr v"
    by (auto simp: py_bind_def split: sum.splits)
  moreover from this have "first_entry ws = Some w0"
    by (auto dest: getitem_idx0_then_key)
  ultimately show "Option.bind (Option.bind (field p a) first_entry) (\<lambda>m. field m b) = Some v"
    by (simp add: getitem_key_field)
next
  assume "Option.bind (Option.bind (field p a) first_entry) (\<lambda>m. field m b) = Some v"
  then obtain ws w0 where "field p a = Some ws" "first_entry ws = Some w0" "field w0 b = Some v"
    by (auto simp: bind_eq_Some_conv)
  then have "getitem_key p a = Inr ws" "getitem_idx ws 0 = Inr w0" "getitem_key w0 b = Inr v"
    by (simp_all add: getitem_key_field first_entry_getitem)
  then show "py_bind (py_bind (getitem_key p a) (\<lambda>ws. getitem_idx ws 0)) (\<lambda>m. getitem_key m b) = Inr v"
    by (simp add: py_bind_def)
qed

lemma chain3_error:
  assumes "py_bind (py_bind (getitem_key p a) (\<lambda>ws. getitem_idx ws 0)) (\<lambda>m. getitem_key m b) = Inl e"
  shows "(e = KeyError \<or> e = IndexError \<or> e = TypeError) \<and>
         (is_mapping p \<and> (case field p a of None \<Rightarrow> True | Some ws \<Rightarrow> is_list_of_mappings ws)
            \<longrightarrow> is_lookup_error e)"
proof (cases "getitem_key p a")
  case (Inl e')
  with assms have "e' = e" by (simp add: py_bind_def)
  with Inl show ?thesis
    by (auto dest: getitem_key_error getitem_key_mapping_error)
next
  case ws: (Inr ws)
  then have f: "field p a = Some ws" by (simp add: getitem_key_field)
  show ?thesis
  proof (cases "getitem_idx ws 0")
    case (Inl e')
    with ws assms have "e' = e" by (simp add: py_bind_def)
    with Inl f show ?thesis
      by (auto dest: getitem_idx0_error getitem_idx0_list_error)
  next
    case (Inr w0)
    with ws assms have k: "getitem_key w0 b = Inl e" by (simp add: py_bind_def)
    then have "e = KeyError \<or> e = TypeError"
      by (rule getitem_key_error)
    moreover have "e = KeyError" if "is_list_of_mappings ws"
      using getitem_idx0_list_mapping [OF that Inr] k by (rule getitem_key_mapping_error)
    ultimately show ?thesis
      using f by auto
  qed
qed

lemma chain1_error:
  assumes "getitem_key p a = Inl e"
  shows "(e = KeyError \<or> e = TypeError) \<and> (is_mapping p \<longrightarrow> e = KeyError)"
  using assms by (auto dest: getitem_key_error getitem_key_mapping_error)

lemma py_bind_simps:
  "py_bind (Inl e) f = Inl e" "py_bind (Inr x) f = f x"
  by (simp_all add: py_bind_def)

lemma shape_full:
  assumes "path_main_temp p = Some t" "path_main_humidity p = Some h" "path_wind_speed p = Some s"
    "path_weather0_description p = Some d" "path_dt p = Some ts"
  shows "shape name la lo p = Inr (normalized_record name la lo t h s d ts)"
proof -
  have "py_bind (getitem_key p (ustr ''main'')) (\<lambda>m. getitem_key m (ustr ''temp'')) = Inr t"
    using assms(1) by (simp only: chain2_path path_main_temp_def)
  moreover have "py_bind (getitem_key p (ustr ''main'')) (\<lambda>m. getitem_key m (ustr ''humidity'')) = Inr h"
    using assms(2) by (simp only: chain2_path path_main_humidity_def)
  moreover have "py_bind (getitem_key p (ustr ''wind'')) (\<lambda>m. getitem_key m (ustr ''speed'')) = Inr s"
    using assms(3) by (simp only: chain2_path path_wind_speed_def)
  moreover have "py_bind (py_bind (getitem_key p (ustr ''weather'')) (\<lambda>ws. getitem_idx ws 0))
      (\<lambda>m. getitem_key m (ustr ''description'')) = Inr d"
    using assms(4) by (simp only: chain3_path path_weather0_description_def)
  moreover have "getitem_key p (ustr ''dt'') = Inr ts"
    using assms(5) by (simp only: getitem_key_field path_dt_def)
  ultimately show ?thesis
    unfolding shape_def normalized_record_def by (simp only: py_bind_simps)
qed

lemma shape_failure:
  assumes "path_main_temp p = None \<or> path_main_humidity p = None \<or> path_wind_speed p = None \<or>
    path_weather0_description p = None \<or> path_dt p = None"
  shows "\<exists>e. shape name la lo p = Inl e \<and> (e = KeyError \<or> e = IndexError \<or> e = TypeError) \<and>
           (nested_mapping p \<longrightarrow> is_lookup_error e)"
proof -
  let ?c1 = "py_bind (getitem_key p (ustr ''main'')) (\<lambda>m. getitem_key m (ustr ''temp''))"
  let ?c2 = "py_bind (getitem_key p (ustr ''main'')) (\<lambda>m. getitem_key m (ustr ''humidity''))"
  let ?c3 = "py_bind (getitem_key p (ustr ''wind'')) (\<lambda>m. getitem_key m (ustr ''speed''))"
  let ?c4 = "py_bind (py_bind (getitem_key p (ustr ''weather'')) (\<lambda>ws. getitem_idx ws 0))
      (\<lambda>m. getitem_key m (ustr ''description''))"
  let ?c5 = "getitem_key p (ustr ''dt'')"
  let ?good = "\<lambda>e. (e = KeyError \<or> e = IndexError \<or> e = TypeError) \<and>
           (nested_mapping p \<longrightarrow> is_lookup_error e)"
  have e1: "?good e" if "?c1 = Inl e" for e
    using chain2_error [OF that] by (auto simp: nested_mapping_def)
  have e2: "?good e" if "?c2 = Inl e" for e
    using chain2_error [OF that] by (auto simp: nested_mapping_def)
  have e3: "?good e" if "?c3 = Inl e" for e
    using chain2_error [OF that] by (auto simp: nested_mapping_def)
  have e4: "?good e" if "?c4 = Inl e" for e
    using chain3_error [OF that] by (auto simp: nested_mapping_def)
  have e5: "?good e" if "?c5 = Inl e" for e
    using chain1_error [OF that] by (auto simp: nested_mapping_def)
  show ?thesis
  proof (cases ?c1)
    case (Inl e)
    then have "shape name la lo p = Inl e"
      by (simp only: shape_def py_bind_simps)
    with e1 [OF Inl] show ?thesis by blast
  next
    case c1: (Inr t)
    show ?thesis
    proof (cases ?c2)
      case (Inl e)
      with c1 have "shape name la lo p = Inl e"
        by (simp only: shape_def py_bind_simps)
      with e2 [OF Inl] show ?thesis by blast
    next
      case c2: (Inr h)
      show ?thesis
      proof (cases ?c3)
        case (Inl e)
        with c1 c2 have "shape name la lo p = Inl e"
          by (simp only: shape_def py_bind_simps)
        with e3 [OF Inl] show ?thesis by blast
      next
        case c3: (Inr s)
        show ?thesis
        proof (cases ?c4)
          case (Inl e)
          with c1 c2 c3 have "shape name la lo p = Inl e"
            by (simp only: shape_def py_bind_simps)
          with e4 [OF Inl] show ?thesis by blast
        next
          case c4: (Inr d)
          show ?thesis
          proof (cases ?c5)
            case (Inl e)
            with c1 c2 c3 c4 have "shape name la lo p = Inl e"
              by (simp only: shape_def py_bind_simps)
            with e5 [OF Inl] show ?thesis by blast
          next
            case c5: (Inr ts)
            from c1 have "path_main_temp p = Some t"
              by (simp only: chain2_path path_main_temp_def)
            moreover from c2 have "path_main_humidity p = Some h"
              by (simp only: chain2_path path_main_humidity_def)
            moreover from c3 have "path_wind_speed p = Some s"
              by (simp only: chain2_path path_wind_speed_def)
            moreover from c4 have "path_weather0_description p = Some d"
              by (simp only: chain3_path path_weather0_description_def)
            moreover from c5 have "path_dt p = Some ts"
              by (simp only: getitem_key_field path_dt_def)
            ultimately show ?thesis
              using assms by simp
          qed
        qed
      qed
    qed
  qed
qed

text \<open>Claim C6 as stated fails where a value on a path is not a container: with
  \<open>"main": null\<close> the path \<open>main.temp\<close> is absent and the subscript raises \<open>TypeError\<close>,
  which is not a lookup error.\<close>

theorem shape_null_main_type_error:
  "path_main_temp null_main_payload = None \<and>
   shape (Some (ustr ''ottawa'')) 45 (-75) null_main_payload = Inl TypeError \<and>
   \<not> is_lookup_error TypeError"
  by (simp add: path_main_temp_def null_main_payload_def shape_def py_bind_def ustr_def)

text \<open>Claim C6, amended: when the five paths are present, shaping returns exactly the
  record of the supplied name and coordinates with the five values, nothing defaulted.
  When a path is absent, shaping fails and returns no record; the error is a lookup error
  (\<open>KeyError\<close> or \<open>IndexError\<close>) when the response is a nested mapping, and may be a
  \<open>TypeError\<close> otherwise.\<close>

theorem shape_exact_record_or_error:
  "(path_main_temp p = Some t \<and> path_main_humidity p = Some h \<and> path_wind_speed p = Some s \<and>
    path_weather0_description p = Some d \<and> path_dt p = Some ts \<longrightarrow>
      shape name la lo p = Inr (normalized_record name la lo t h s d ts)) \<and>
   (path_main_temp p = None \<or> path_main_humidity p = None \<or> path_wind_speed p = None \<or>
    path_weather0_description p = None \<or> path_dt p = None \<longrightarrow>
      (\<exists>e. shape name la lo p = Inl e \<and> (e = KeyError \<or> e = IndexError \<or> e = TypeError) \<and>
           (nested_mapping p \<longrightarrow> is_lookup_error e)))"
  using shape_full [of p t h s d ts name la lo] shape_failure [of p name la lo]
  by blast

text \<open>The response of the specification's example, and a response without \<open>dt\<close>.\<close>

theorem shape_exact_record_or_error_witness:
  "shape (Some (ustr ''ottawa'')) 45 (-75) (demo_payload (ustr ''clear sky'')) =
     Inr (normalized_record (Some (ustr ''ottawa'')) 45 (-75) (JInt 21) (JInt 60) (JInt 3)
            (JStr (ustr ''clear sky'')) (JInt 1700000000)) \<and>
   path_dt no_dt_payload = None \<and> nested_mapping no_dt_payload \<and>
   (\<exists>e. shape (Some (ustr ''ottawa'')) 45 (-75) no_dt_payload = Inl e \<and> is_lookup_error e)"
proof -
  have full: "path_main_temp (demo_payload (ustr ''clear sky'')) = Some (JInt 21) \<and>
      path_main_humidity (demo_payload (ustr ''clear sky'')) = Some (JInt 60) \<and>
      path_wind_speed (demo_payload (ustr ''clear sky'')) = Some (JInt 3) \<and>
      path_weather0_description (demo_payload (ustr ''clear sky'')) = Some (JStr (ustr ''clear sky'')) \<and>
      path_dt (demo_payload (ustr ''clear sky'')) = Some (JInt 1700000000)"
    by (simp add: path_main_temp_def path_main_humidity_def path_wind_speed_def
          path_weather0_description_def path_dt_def demo_payload_def ustr_def)
  have missing: "path_dt no_dt_payload = None" "nested_mapping no_dt_payload"
    by (simp_all add: path_dt_def nested_mapping_def no_dt_payload_def ustr_def)
  from full missing
    shape_exact_record_or_error [of "demo_payload (ustr ''clear sky'')" "JInt 21" "JInt 60"
      "JInt 3" "JStr (ustr ''clear sky'')" "JInt 1700000000" "Some (ustr ''ottawa'')" 45 "-75"]
    shape_exact_record_or_error [of no_dt_payload _ _ _ _ _ "Some (ustr ''ottawa'')" 45 "-75"]
  show ?thesis
    by blast
qed

section \<open>Properties of the storage key\<close>

lemma py_lower_ascii:
  "list_all (\<lambda>c. c < 128) s \<Longrightarrow> py_lower E s = map ascii_lower s"
  by (simp add: py_lower_def)

lemma replace_char_ascii:
  "list_all (\<lambda>c. c < 128) s \<Longrightarrow> list_all (\<lambda>c. c < 128) (replace_char 32 95 s)"
  by (induction s) (auto simp: replace_char_def)

lemma safe_city_ascii:
  assumes "list_all (\<lambda>c. c < 128) city"
  shows "py_lower E (replace_char 32 95 city) =
         map (\<lambda>c. if c = 32 then 95 else if 65 \<le> c \<and> c \<le> 90 then c + 32 else c) city"
proof -
  have "py_lower E (replace_char 32 95 city) = map ascii_lower (replace_char 32 95 city)"
    using assms by (intro py_lower_ascii replace_char_ascii)
  also have "\<dots> = map (\<lambda>c. if c = 32 then 95 else if 65 \<le> c \<and> c \<le> 90 then c + 32 else c) city"
    by (simp add: replace_char_def ascii_lower_def)
  finally show ?thesis .
qed

lemma dec_digits_range: "c \<in> set (dec_digits n) \<Longrightarrow> 48 \<le> c \<and> c \<le> 57"
proof (induction n arbitrary: c rule: dec_digits.induct)
  case (1 n)
  show ?case
  proof (cases "n < 10")
    case True
    with "1.prems" show ?thesis by (subst (asm) dec_digits.simps) simp
  next
    case False
    with "1.prems" have "c \<in> set (dec_digits (n div 10)) \<or> c = 48 + n mod 10"
      by (subst (asm) dec_digits.simps) auto
    then show ?thesis
    proof
      assume "c \<in> set (dec_digits (n div 10))"
      with "1.IH" False show ?thesis by simp
    next
      assume "c = 48 + n mod 10"
      moreover have "n mod 10 < 10" by simp
      ultimately show ?thesis by linarith
    qed
  qed
qed

lemma zero_pad_range: "c \<in> set (zero_pad width n) \<Longrightarrow> 48 \<le> c \<and> c \<le> 57"
  by (auto simp: zero_pad_def dest: dec_digits_range)

lemma strftime_key_no_slash: "47 \<notin> set (strftime_key t)"
  by (auto simp: strftime_key_def dest: zero_pad_range)

lemma count_slash_map_safe:
  "count_list (map (\<lambda>c. if c = 32 then 95 else if 65 \<le> c \<and> c \<le> 90 then c + 32 else c) s) 47
     = count_list s (47::nat)"
  by (induction s) auto

lemma count_slash_replace: "count_list (replace_char 32 95 s) 47 = count_list s (47::nat)"
  by (induction s) (auto simp: replace_char_def)

lemma count_slash_suffix:
  "count_list (ustr ''/weather_'' @ strftime_key t @ ustr ''.json'') 47 = 1"
proof -
  have "count_list (strftime_key t) 47 = 0"
    using strftime_key_no_slash by (simp add: count_list_0_iff)
  then show ?thesis
    by (simp add: ustr_def)
qed

lemma build_s3_key_value:
  "fst (build_s3_key E prefix city w) =
     prefix @ py_lower E (replace_char 32 95 city) @ ustr ''/weather_'' @
     strftime_key (utcnow E (clock_reads w)) @ ustr ''.json''"
  by (simp add: build_s3_key_def Let_def)

text \<open>The timestamp digit by digit.\<close>

lemma zero_pad2: "n < 100 \<Longrightarrow> zero_pad 2 n = [48 + n div 10, 48 + n mod 10]"
proof (cases "n < 10")
  case True
  then show ?thesis
    by (simp add: zero_pad_def dec_digits.simps [of n])
next
  case False
  assume "n < 100"
  with False have "n div 10 < 10" by simp
  with False show ?thesis
    by (simp add: zero_pad_def dec_digits.simps [of n] dec_digits.simps [of "n div 10"])
qed

lemma dec_digits4:
  assumes "1000 \<le> n" "n < 10000"
  shows "dec_digits n =
    [48 + n div 1000, 48 + n div 100 mod 10, 48 + n div 10 mod 10, 48 + n mod 10]"
proof -
  from assms have a: "\<not> n < 10" "\<not> n div 10 < 10" "\<not> n div 10 div 10 < 10" "n div 10 div 10 div 10 < 10"
    by simp_all
  have d: "n div 10 div 10 = n div 100" "n div 10 div 10 div 10 = n div 1000"
    by (simp_all add: div_mult2_eq [symmetric])
  show ?thesis
    using a
    by (simp add: dec_digits.simps [of n] dec_digits.simps [of "n div 10"]
          dec_digits.simps [of "n div 10 div 10"] dec_digits.simps [of "n div 10 div 10 div 10"])
       (simp add: d)
qed

lemma zero_pad4:
  assumes "1000 \<le> n" "n < 10000"
  shows "zero_pad 4 n =
    [48 + n div 1000, 48 + n div 100 mod 10, 48 + n div 10 mod 10, 48 + n mod 10]"
  using dec_digits4 [OF assms] by (simp add: zero_pad_def)

lemma strftime_key_digits:
  assumes "1000 \<le> year t" "year t < 10000" "month t < 100" "day t < 100" "hour t < 100"
    "minute t < 100" "second t < 100"
  shows "strftime_key t =
    [48 + year t div 1000, 48 + year t div 100 mod 10, 48 + year t div 10 mod 10,
     48 + year t mod 10, 45,
     48 + month t div 10, 48 + month t mod 10, 45,
     48 + day t div 10, 48 + day t mod 10, 95,
     48 + hour t div 10, 48 + hour t mod 10, 45,
     48 + minute t div 10, 48 + minute t mod 10, 45,
     48 + second t div 10, 48 + second t mod 10]"
  using assms by (simp add: strftime_key_def zero_pad2 zero_pad4)

lemma two_digits_inj:
  "(n::nat) div 10 = m div 10 \<Longrightarrow> n mod 10 = m mod 10 \<Longrightarrow> n = m"
  by (metis div_mult_mod_eq)

lemma four_digits_inj:
  assumes "(n::nat) div 1000 = m div 1000" "n div 100 mod 10 = m div 100 mod 10"
    "n div 10 mod 10 = m div 10 mod 10" "n mod 10 = m mod 10"
  shows "n = m"
proof -
  have "n div 100 div 10 = m div 100 div 10"
    using assms(1) by (simp add: div_mult2_eq [symmetric])
  from this assms(2) have "n div 100 = m div 100"
    by (rule two_digits_inj)
  then have "n div 10 div 10 = m div 10 div 10"
    by (simp add: div_mult2_eq [symmetric])
  from this assms(3) have "n div 10 = m div 10"
    by (rule two_digits_inj)
  from this assms(4) show ?thesis
    by (rule two_digits_inj)
qed


lemma strftime_key_fit: "fields_fit t \<Longrightarrow> strftime_key t = timestamp_digits t"
  unfolding fields_fit_def by (intro strftime_key_digits) simp_all

lemma timestamp_digits_inj:
  assumes "timestamp_digits t1 = timestamp_digits t2"
  shows "year t1 = year t2 \<and> month t1 = month t2 \<and> day t1 = day t2 \<and> hour t1 = hour t2 \<and>
         minute t1 = minute t2 \<and> second t1 = second t2"
proof -
  from assms have "year t1 div 1000 = year t2 div 1000"
    "year t1 div 100 mod 10 = year t2 div 100 mod 10"
    "year t1 div 10 mod 10 = year t2 div 10 mod 10" "year t1 mod 10 = year t2 mod 10"
    by simp_all
  then have "year t1 = year t2"
    by (rule four_digits_inj)
  moreover from assms have "month t1 = month t2" "day t1 = day t2" "hour t1 = hour t2"
    "minute t1 = minute t2" "second t1 = second t2"
    by (auto intro: two_digits_inj)
  ultimately show ?thesis
    by simp
qed

lemma safe_city_value:
  "py_lower E (replace_char 32 95 city) =
     (if list_all (\<lambda>c. c < 128) city
      then map (\<lambda>c. if c = 32 then 95 else if 65 \<le> c \<and> c \<le> 90 then c + 32 else c) city
      else unicode_lower E (map (\<lambda>c. if c = 32 then 95 else c) city))"
proof (cases "list_all (\<lambda>c. c < 128) city")
  case True
  then show ?thesis
    by (simp only: safe_city_ascii if_True)
next
  case False
  then have "\<not> list_all (\<lambda>c. c < 128) (replace_char 32 95 city)"
    by (induction city) (auto simp: replace_char_def)
  with False show ?thesis
    by (simp add: py_lower_def replace_char_def)
qed

text \<open>Claim C5: the key is the prefix, the city name with every space replaced by an
  underscore and then lowercased, \<open>/weather_\<close>, the UTC clock reading written as
  \<open>YYYY-MM-DD_HH-MM-SS\<close>, and \<open>.json\<close>; for the prefix \<open>raw/weather/\<close> and the city
  \<open>New York\<close> it is \<open>raw/weather/new_york/weather_<timestamp>.json\<close>. The clock is read
  once. The timestamp has the resolution of a second: two readings give the same key
  exactly when they agree from the year down to the second, and the microseconds never
  reach the key.\<close>

theorem build_s3_key_format:
  "(utcnow E (clock_reads w) = t \<and> fields_fit t \<longrightarrow>
      fst (build_s3_key E prefix city w) =
        prefix @
        (if list_all (\<lambda>c. c < 128) city
         then map (\<lambda>c. if c = 32 then 95 else if 65 \<le> c \<and> c \<le> 90 then c + 32 else c) city
         else unicode_lower E (map (\<lambda>c. if c = 32 then 95 else c) city)) @
        ustr ''/weather_'' @ timestamp_digits t @ ustr ''.json'') \<and>
   (utcnow E (clock_reads w) = t \<and> fields_fit t \<longrightarrow>
      fst (build_s3_key E (ustr ''raw/weather/'') (ustr ''New York'') w) =
        ustr ''raw/weather/new_york/weather_'' @ timestamp_digits t @ ustr ''.json'') \<and>
   clock_reads (snd (build_s3_key E prefix city w)) = Suc (clock_reads w) \<and>
   fst (build_s3_key (E\<lparr>utcnow := \<lambda>n. t\<lparr>microsecond := us\<rparr>\<rparr>) prefix city w) =
     fst (build_s3_key (E\<lparr>utcnow := \<lambda>n. t\<rparr>) prefix city w) \<and>
   (fields_fit t1 \<and> fields_fit t2 \<longrightarrow>
      (fst (build_s3_key (E\<lparr>utcnow := \<lambda>n. t1\<rparr>) prefix city w) =
       fst (build_s3_key (E\<lparr>utcnow := \<lambda>n. t2\<rparr>) prefix city w) \<longleftrightarrow>
       year t1 = year t2 \<and> month t1 = month t2 \<and> day t1 = day t2 \<and> hour t1 = hour t2 \<and>
       minute t1 = minute t2 \<and> second t1 = second t2))"
proof (intro conjI impI)
  assume h: "utcnow E (clock_reads w) = t \<and> fields_fit t"
  then have ts: "strftime_key (utcnow E (clock_reads w)) = timestamp_digits t"
    using strftime_key_fit by blast
  show "fst (build_s3_key E prefix city w) =
        prefix @
        (if list_all (\<lambda>c. c < 128) city
         then map (\<lambda>c. if c = 32 then 95 else if 65 \<le> c \<and> c \<le> 90 then c + 32 else c) city
         else unicode_lower E (map (\<lambda>c. if c = 32 then 95 else c) city)) @
        ustr ''/weather_'' @ timestamp_digits t @ ustr ''.json''"
    by (simp only: build_s3_key_value safe_city_value ts)
next
  assume h: "utcnow E (clock_reads w) = t \<and> fields_fit t"
  then have ts: "strftime_key (utcnow E (clock_reads w)) = timestamp_digits t"
    using strftime_key_fit by blast
  have "py_lower E (replace_char 32 95 (ustr ''New York'')) = ustr ''new_york''"
    by (simp add: py_lower_def replace_char_def ascii_lower_def ustr_def)
  then have "fst (build_s3_key E (ustr ''raw/weather/'') (ustr ''New York'') w) =
      ustr ''raw/weather/'' @ ustr ''new_york'' @ ustr ''/weather_'' @ timestamp_digits t @
      ustr ''.json''"
    by (simp only: build_s3_key_value ts)
  then show "fst (build_s3_key E (ustr ''raw/weather/'') (ustr ''New York'') w) =
      ustr ''raw/weather/new_york/weather_'' @ timestamp_digits t @ ustr ''.json''"
    by (simp add: ustr_def)
next
  show "clock_reads (snd (build_s3_key E prefix city w)) = Suc (clock_reads w)"
    by (simp add: build_s3_key_def Let_def)
next
  show "fst (build_s3_key (E\<lparr>utcnow := \<lambda>n. t\<lparr>microsecond := us\<rparr>\<rparr>) prefix city w) =
     fst (build_s3_key (E\<lparr>utcnow := \<lambda>n. t\<rparr>) prefix city w)"
    by (simp add: build_s3_key_value py_lower_def strftime_key_def)
next
  assume h: "fields_fit t1 \<and> fields_fit t2"
  let ?E1 = "E\<lparr>utcnow := \<lambda>n. t1\<rparr>" and ?E2 = "E\<lparr>utcnow := \<lambda>n. t2\<rparr>"
  have lower: "py_lower ?E1 s = py_lower ?E2 s" for s
    by (simp add: py_lower_def)
  have k1: "fst (build_s3_key ?E1 prefix city w) =
      prefix @ py_lower ?E2 (replace_char 32 95 city) @ ustr ''/weather_'' @
      timestamp_digits t1 @ ustr ''.json''"
    using h strftime_key_fit [of t1] by (simp add: build_s3_key_value lower)
  have k2: "fst (build_s3_key ?E2 prefix city w) =
      prefix @ py_lower ?E2 (replace_char 32 95 city) @ ustr ''/weather_'' @
      timestamp_digits t2 @ ustr ''.json''"
    using h strftime_key_fit [of t2] by (simp add: build_s3_key_value)
  have "fst (build_s3_key ?E1 prefix city w) = fst (build_s3_key ?E2 prefix city w) \<longleftrightarrow>
      timestamp_digits t1 = timestamp_digits t2"
    unfolding k1 k2 by simp
  also have "\<dots> \<longleftrightarrow> year t1 = year t2 \<and> month t1 = month t2 \<and> day t1 = day t2 \<and>
      hour t1 = hour t2 \<and> minute t1 = minute t2 \<and> second t1 = second t2"
    using timestamp_digits_inj [of t1 t2] by auto
  finally show "fst (build_s3_key ?E1 prefix city w) = fst (build_s3_key ?E2 prefix city w) \<longleftrightarrow>
      year t1 = year t2 \<and> month t1 = month t2 \<and> day t1 = day t2 \<and>
      hour t1 = hour t2 \<and> minute t1 = minute t2 \<and> second t1 = second t2" .
qed


text \<open>The key of the specification's example with the clock at 2024-01-02 03:04:05 and
  one second later: the two keys differ in the last digit.\<close>

theorem build_s3_key_format_witness:
  "fst (build_s3_key demo_env (ustr ''raw/weather/'') (ustr ''New York'') world0) =
     ustr ''raw/weather/new_york/weather_2024-01-02_03-04-05.json'' \<and>
   fst (build_s3_key (demo_env\<lparr>utcnow := \<lambda>n. second_clock\<rparr>) (ustr ''raw/weather/'')
          (ustr ''New York'') world0) =
     ustr ''raw/weather/new_york/weather_2024-01-02_03-04-06.json'' \<and>
   fst (build_s3_key (demo_env\<lparr>utcnow := \<lambda>n. second_clock\<lparr>second := 5\<rparr>\<rparr>) (ustr ''raw/weather/'')
          (ustr ''New York'') world0) \<noteq>
   fst (build_s3_key (demo_env\<lparr>utcnow := \<lambda>n. second_clock\<rparr>) (ustr ''raw/weather/'')
          (ustr ''New York'') world0)"
proof -
  let ?t = "\<lparr>year = 2024, month = 1, day = 2, hour = 3, minute = 4, second = 5,
     microsecond = 0\<rparr>"
  have f1: "utcnow demo_env (clock_reads (world0 :: int world)) = ?t \<and> fields_fit ?t"
    by (simp add: demo_env_def fields_fit_def)
  have f2: "utcnow (demo_env\<lparr>utcnow := \<lambda>n. second_clock\<rparr>) (clock_reads (world0 :: int world)) =
      second_clock \<and> fields_fit second_clock"
    by (simp add: fields_fit_def second_clock_def)
  have f3: "fields_fit (second_clock\<lparr>second := 5\<rparr>) \<and> fields_fit second_clock"
    by (simp add: fields_fit_def second_clock_def)
  from f1 build_s3_key_format [where E = demo_env and w = world0 and t = ?t]
  have "fst (build_s3_key demo_env (ustr ''raw/weather/'') (ustr ''New York'') world0) =
      ustr ''raw/weather/new_york/weather_'' @ timestamp_digits ?t @ ustr ''.json''"
    by blast
  then have k1: "fst (build_s3_key demo_env (ustr ''raw/weather/'') (ustr ''New York'') world0) =
     ustr ''raw/weather/new_york/weather_2024-01-02_03-04-05.json''"
    by (simp add: ustr_def)
  from f2 build_s3_key_format [where E = "demo_env\<lparr>utcnow := \<lambda>n. second_clock\<rparr>"
      and w = world0 and t = second_clock]
  have "fst (build_s3_key (demo_env\<lparr>utcnow := \<lambda>n. second_clock\<rparr>) (ustr ''raw/weather/'')
          (ustr ''New York'') world0) =
      ustr ''raw/weather/new_york/weather_'' @ timestamp_digits second_clock @ ustr ''.json''"
    by blast
  then have k2: "fst (build_s3_key (demo_env\<lparr>utcnow := \<lambda>n. second_clock\<rparr>) (ustr ''raw/weather/'')
          (ustr ''New York'') world0) =
     ustr ''raw/weather/new_york/weather_2024-01-02_03-04-06.json''"
    by (simp add: ustr_def second_clock_def)
  from f3 build_s3_key_format [where E = demo_env and w = world0
      and ?t1.0 = "second_clock\<lparr>second := 5\<rparr>" and ?t2.0 = second_clock
      and prefix = "ustr ''raw/weather/''" and city = "ustr ''New York''"]
  have "fst (build_s3_key (demo_env\<lparr>utcnow := \<lambda>n. second_clock\<lparr>second := 5\<rparr>\<rparr>)
          (ustr ''raw/weather/'') (ustr ''New York'') world0) =
        fst (build_s3_key (demo_env\<lparr>utcnow := \<lambda>n. second_clock\<rparr>) (ustr ''raw/weather/'')
          (ustr ''New York'') world0) \<longleftrightarrow>
        second (second_clock\<lparr>second := 5\<rparr>) = second second_clock"
    by simp
  then have k3: "fst (build_s3_key (demo_env\<lparr>utcnow := \<lambda>n. second_clock\<lparr>second := 5\<rparr>\<rparr>)
          (ustr ''raw/weather/'') (ustr ''New York'') world0) \<noteq>
        fst (build_s3_key (demo_env\<lparr>utcnow := \<lambda>n. second_clock\<rparr>) (ustr ''raw/weather/'')
          (ustr ''New York'') world0)"
    by (simp add: second_clock_def)
  from k1 k2 k3 show ?thesis
    by blast
qed

text \<open>Claim C10: \<open>build_s3_key\<close> changes nothing in the city name but spaces and letter
  case. For an ASCII name every character other than a space and the letters A..Z stands
  in the key as it is, and the key holds every slash of the name: one slash more than the
  prefix and the name together, so a name with a slash adds path segments. (For a name
  that is not ASCII the slashes are kept when Python's Unicode lowercasing keeps them.)\<close>

theorem build_s3_key_keeps_slash:
  "(list_all (\<lambda>c. c < 128) city \<longrightarrow>
      fst (build_s3_key E prefix city w) =
        prefix @ map (\<lambda>c. if c = 32 then 95 else if 65 \<le> c \<and> c \<le> 90 then c + 32 else c) city @
        ustr ''/weather_'' @ strftime_key (utcnow E (clock_reads w)) @ ustr ''.json'') \<and>
   (list_all (\<lambda>c. c < 128) city \<or> (\<forall>s. count_list (unicode_lower E s) 47 = count_list s 47) \<longrightarrow>
      count_list (fst (build_s3_key E prefix city w)) 47 =
        count_list prefix 47 + count_list city 47 + 1)"
proof (intro conjI impI)
  assume "list_all (\<lambda>c. c < 128) city"
  then show "fst (build_s3_key E prefix city w) =
        prefix @ map (\<lambda>c. if c = 32 then 95 else if 65 \<le> c \<and> c \<le> 90 then c + 32 else c) city @
        ustr ''/weather_'' @ strftime_key (utcnow E (clock_reads w)) @ ustr ''.json''"
    by (simp only: build_s3_key_value safe_city_ascii)
next
  assume h: "list_all (\<lambda>c. c < 128) city \<or>
    (\<forall>s. count_list (unicode_lower E s) 47 = count_list s 47)"
  have "count_list (py_lower E (replace_char 32 95 city)) 47 = count_list city 47"
  proof (cases "list_all (\<lambda>c. c < 128) city")
    case True
    then show ?thesis
      by (simp only: safe_city_ascii count_slash_map_safe)
  next
    case False
    with h have u: "\<forall>s. count_list (unicode_lower E s) 47 = count_list s 47"
      by blast
    from False have "\<not> list_all (\<lambda>c. c < 128) (replace_char 32 95 city)"
      by (induction city) (auto simp: replace_char_def)
    then have "py_lower E (replace_char 32 95 city) = unicode_lower E (replace_char 32 95 city)"
      by (simp add: py_lower_def)
    with u show ?thesis
      by (simp add: count_slash_replace)
  qed
  then show "count_list (fst (build_s3_key E prefix city w)) 47 =
        count_list prefix 47 + count_list city 47 + 1"
    using count_slash_suffix [of "utcnow E (clock_reads w)"]
    by (simp only: build_s3_key_value count_list_append)
qed

text \<open>A name with a slash: the key has four slashes where the layout has three.\<close>

theorem build_s3_key_keeps_slash_witness:
  "fst (build_s3_key demo_env (ustr ''raw/weather/'') (ustr ''St Johns/NL'') world0) =
     ustr ''raw/weather/st_johns/nl/weather_2024-01-02_03-04-05.json'' \<and>
   count_list (fst (build_s3_key demo_env (ustr ''raw/weather/'') (ustr ''St Johns/NL'') world0)) 47
     = 4"
proof -
  have ascii: "list_all (\<lambda>c. c < 128) (ustr ''St Johns/NL'')"
    by (simp add: ustr_def)
  have clock: "strftime_key (utcnow demo_env (clock_reads (world0 :: int world))) = ustr ''2024-01-02_03-04-05''"
    by (simp add: demo_env_def world0_def strftime_key_def zero_pad_def dec_digits.simps ustr_def)
  have "fst (build_s3_key demo_env (ustr ''raw/weather/'') (ustr ''St Johns/NL'') world0) =
        ustr ''raw/weather/'' @
        map (\<lambda>c. if c = 32 then 95 else if 65 \<le> c \<and> c \<le> 90 then c + 32 else c) (ustr ''St Johns/NL'') @
        ustr ''/weather_'' @ strftime_key (utcnow demo_env (clock_reads (world0 :: int world))) @ ustr ''.json''"
    by (rule build_s3_key_keeps_slash [of "ustr ''St Johns/NL''" demo_env "ustr ''raw/weather/''"
          world0, THEN conjunct1, THEN mp, OF ascii])
  then have key: "fst (build_s3_key demo_env (ustr ''raw/weather/'') (ustr ''St Johns/NL'') world0) =
     ustr ''raw/weather/st_johns/nl/weather_2024-01-02_03-04-05.json''"
    by (simp add: clock) (simp add: ustr_def)
  then show ?thesis
    by (simp add: ustr_def)
qed

section \<open>Properties of the serialization\<close>

lemma bytes_len_simps [simp]:
  "bytes_len [] = 0" "bytes_len (c # s) = utf8_len c + bytes_len s"
  "bytes_len (s @ t) = bytes_len s + bytes_len t"
  by (simp_all add: bytes_len_def)

lemma surplus_simps [simp]:
  "surplus [] = 0" "surplus (c # s) = char_surplus c + surplus s"
  "surplus (s @ t) = surplus s + surplus t"
  by (simp_all add: surplus_def)

lemma bytes_len_ascii: "list_all (\<lambda>c. c < 128) s \<Longrightarrow> bytes_len s = length s"
  by (induction s) (auto simp: utf8_len_def)

lemma utf8_char_length: "utf8_char c = Inr bs \<Longrightarrow> length bs = utf8_len c"
  by (auto simp: utf8_char_def utf8_len_def split: if_splits)

lemma utf8_encode_length: "utf8_encode s = Inr body \<Longrightarrow> length body = bytes_len s"
proof (induction s arbitrary: body)
  case Nil
  then show ?case by simp
next
  case (Cons c s)
  from Cons.prems obtain bs rest where "utf8_char c = Inr bs" "utf8_encode s = Inr rest"
    "body = bs @ rest"
    by (auto split: sum.splits)
  with Cons.IH [of rest] show ?case
    by (simp add: utf8_char_length)
qed

lemma hex_digit_ascii: "d < 16 \<Longrightarrow> hex_digit d < 128"
  by (simp add: hex_digit_def)

lemma u_escape_length [simp]: "length (u_escape c) = 6"
  by (simp add: u_escape_def)

lemma u_escape_bytes [simp]: "bytes_len (u_escape c) = 6"
proof -
  have "list_all (\<lambda>c. c < 128) (u_escape c)"
    by (simp add: u_escape_def hex_digit_ascii)
  then show ?thesis
    by (simp add: bytes_len_ascii)
qed

lemma short_escape_Some:
  "short_escape c = Some e \<Longrightarrow> length e = 2 \<and> bytes_len e = 2 \<and> c < 127"
  by (auto simp: short_escape_def utf8_len_def split: if_splits)

lemma escape_char_sizes:
  "bytes_len (escape_char False c) \<le> length (escape_char True c) \<and>
   (bytes_len (escape_char False c) = length (escape_char True c) \<longleftrightarrow> c < 127)"
proof (cases "short_escape c")
  case (Some e)
  then show ?thesis
    using short_escape_Some [OF Some] by (simp add: escape_char_def)
next
  case None
  then show ?thesis
    by (simp add: escape_char_def utf8_len_def)
qed

lemma char_surplus_eq:
  "bytes_len (escape_char False c) + char_surplus c = length (escape_char True c)"
  using escape_char_sizes [of c] by (simp add: char_surplus_def)

lemma char_surplus_zero: "char_surplus c = 0 \<longleftrightarrow> c < 127"
  using escape_char_sizes [of c] by (auto simp: char_surplus_def)

lemma surplus_zero: "surplus s = 0 \<longleftrightarrow> list_all (\<lambda>c. c < 127) s"
  by (induction s) (auto simp: char_surplus_zero)

lemma escaped_sizes:
  "bytes_len (concat (map (escape_char False) s)) + surplus s =
   length (concat (map (escape_char True) s))"
proof (induction s)
  case Nil
  then show ?case by simp
next
  case (Cons c s)
  then show ?case
    using char_surplus_eq [of c] by simp
qed

lemma json_string_sizes:
  "bytes_len (json_string False s) + surplus s = length (json_string True s)"
  using escaped_sizes [of s] by (simp add: json_string_def utf8_len_def)

lemma dec_digits_ascii: "list_all (\<lambda>c. c < 128) (dec_digits n)"
  unfolding list_all_iff using dec_digits_range [of _ n] by fastforce

lemma int_repr_ascii: "list_all (\<lambda>c. c < 128) (int_repr i)"
  by (simp add: int_repr_def dec_digits_ascii)

lemma join_items_Cons:
  "join_items (a # rest) = (if rest = [] then a else a @ [44, 32] @ join_items rest)"
  by (cases rest) simp_all

lemma json_dumps_list_Nil: "json_dumps_list E ea xs = [] \<longleftrightarrow> xs = []"
  by (cases xs) simp_all

lemma json_dumps_items_Nil: "json_dumps_items E ea kvs = [] \<longleftrightarrow> kvs = []"
  by (cases kvs) auto

lemma json_dumps_sizes:
  assumes fl: "\<forall>x. list_all (\<lambda>c. c < 128) (float_repr E x)"
  shows "bytes_len (json_dumps E False j) + surplus (json_chars j) = length (json_dumps E True j)"
    and "bytes_len (join_items (json_dumps_list E False xs)) + surplus (json_chars_list xs) =
         length (join_items (json_dumps_list E True xs))"
    and "bytes_len (join_items (json_dumps_items E False kvs)) + surplus (json_chars_items kvs) =
         length (join_items (json_dumps_items E True kvs))"
proof (induction j and xs and kvs rule: json_chars_json_chars_list_json_chars_items.induct)
  case 1
  show ?case by (simp add: ustr_def utf8_len_def)
next
  case (2 b)
  show ?case by (simp add: ustr_def utf8_len_def)
next
  case (3 i)
  show ?case by (simp add: bytes_len_ascii int_repr_ascii)
next
  case (4 x)
  show ?case using fl by (simp add: bytes_len_ascii)
next
  case (5 s)
  show ?case by (simp add: json_string_sizes)
next
  case (6 xs)
  then show ?case by (simp add: utf8_len_def)
next
  case (7 kvs)
  then show ?case by (simp add: utf8_len_def)
next
  case 8
  show ?case by simp
next
  case (9 x xs)
  then show ?case
    by (simp add: join_items_Cons json_dumps_list_Nil utf8_len_def)
next
  case 10
  show ?case by simp
next
  case (11 k v kvs)
  then show ?case
    using json_string_sizes [of k]
    by (simp add: join_items_Cons json_dumps_items_Nil utf8_len_def)
qed

lemma upload_body_vs_dry_run_size:
  assumes fl: "\<forall>x. list_all (\<lambda>c. c < 128) (float_repr E x)"
    and body: "upload_body E data = Inr body"
  shows "length body + surplus (json_chars (JObj data)) = dry_run_size E data"
proof -
  from body have "utf8_encode (json_dumps E False (JObj data)) = Inr body"
    by (simp only: upload_body_def)
  then have "length body = bytes_len (json_dumps E False (JObj data))"
    by (rule utf8_encode_length)
  with json_dumps_sizes(1) [OF fl, of "JObj data"] show ?thesis
    by (simp only: dry_run_size_def)
qed

text \<open>What the two branches of the loop body do with the record.\<close>

lemma process_location_dry_run_report:
  assumes "arg_dry_run args"
    and "call_current_weather E la lo k (log_event (Info_fetching name la lo) w) = (Inr payload, w1)"
    and "shape name la lo payload = Inr data"
  shows "process_location E args k (name, (la, lo)) w =
         (None, log_event (Info_dry_run name (dry_run_size E data)) w1)"
  using assms by (simp add: process_location_def)



lemmas eval_json =
  normalized_record_def json_of_name_def demo_env_def ustr_def json_string_def escape_char_def
  short_escape_def u_escape_def hex_digit_def int_repr_def dec_digits.simps

lemma demo_float_repr_ascii: "\<forall>x. list_all (\<lambda>c. c < 128) (float_repr demo_env x)"
  by (simp add: demo_env_def int_repr_ascii ustr_def)

lemma accent_env_fetch:
  "call_current_weather accent_env 48 2 (ustr ''key'') w = (Inr accent_payload, request_sent w)"
  by (simp add: call_current_weather_def accent_env_def demo_env_def MAX_RETRIES_def
        retry_loop.simps [of _ _ _ _ 0])

lemma accent_shape: "shape (Some (ustr ''paris'')) 48 2 accent_payload = Inr accent_record"
  by (simp add: shape_def accent_payload_def demo_payload_def accent_record_def
        normalized_record_def py_bind_def ustr_def)

lemma accent_record_reported: "dry_run_size accent_env accent_record = 152"
  by (simp add: dry_run_size_def accent_record_def accent_env_def eval_json)

lemma accent_record_uploaded:
  "map_sum id length (upload_body accent_env accent_record) = Inr 144"
  by (simp add: upload_body_def accent_record_def accent_env_def eval_json utf8_char_def)


section \<open>Properties of the dry run\<close>

lemma retry_loop_frame:
  "puts (snd (retry_loop E la lo k attempt w)) = puts w \<and>
   clock_reads (snd (retry_loop E la lo k attempt w)) = clock_reads w"
proof (induction E la lo k attempt w rule: retry_loop.induct)
  case (1 E la lo k attempt w)
  show ?case
  proof (cases "attempt < MAX_RETRIES")
    case False
    then show ?thesis by (subst (1 2) retry_loop.simps) simp
  next
    case a: True
    show ?thesis
    proof (cases "http_get E (requests_made w) la lo k")
      case (Http_ok body)
      with a show ?thesis by (subst (1 2) retry_loop.simps) simp
    next
      case (Http_raises exc)
      show ?thesis
      proof (cases "\<exists>n. exc = RequestException n")
        case False
        with a Http_raises show ?thesis
          by (subst (1 2) retry_loop.simps) (cases exc; simp)
      next
        case True
        then obtain n where n: "exc = RequestException n" by blast
        show ?thesis
        proof (cases "attempt + 1 \<ge> MAX_RETRIES")
          case True
          with a Http_raises n show ?thesis
            by (subst (1 2) retry_loop.simps) simp
        next
          case False
          from "1.IH" [OF a Http_raises n False] a False Http_raises n show ?thesis
            by (subst (1 2) retry_loop.simps) simp
        qed
      qed
    qed
  qed
qed

lemma call_current_weather_frame:
  "puts (snd (call_current_weather E la lo k w)) = puts w"
  "clock_reads (snd (call_current_weather E la lo k w)) = clock_reads w"
  using retry_loop_frame [of E la lo k 0 w] by (simp_all add: call_current_weather_def)

lemma call_current_weather_frame':
  assumes "call_current_weather E la lo k w = (r, w1)"
  shows "puts w1 = puts w" "clock_reads w1 = clock_reads w"
  using call_current_weather_frame [of E la lo k w] assms by simp_all

lemma process_location_dry_run:
  assumes "arg_dry_run args"
  shows "puts (snd (process_location E args k loc w)) = puts w"
    and "clock_reads (snd (process_location E args k loc w)) = clock_reads w"
proof -
  obtain name la lo where loc: "loc = (name, (la, lo))"
    by (cases loc) auto
  obtain r w1 where c: "call_current_weather E la lo k (log_event (Info_fetching name la lo) w) = (r, w1)"
    by (cases "call_current_weather E la lo k (log_event (Info_fetching name la lo) w)")
  from call_current_weather_frame' [OF c] have f: "puts w1 = puts w" "clock_reads w1 = clock_reads w"
    by simp_all
  show "puts (snd (process_location E args k loc w)) = puts w"
    using assms loc c f by (simp add: process_location_def split: sum.splits)
  show "clock_reads (snd (process_location E args k loc w)) = clock_reads w"
    using assms loc c f by (simp add: process_location_def split: sum.splits)
qed

lemma process_locations_dry_run:
  assumes "arg_dry_run args"
  shows "puts (snd (process_locations E args k locs w)) = puts w \<and>
         clock_reads (snd (process_locations E args k locs w)) = clock_reads w"
proof (induction locs arbitrary: w)
  case Nil
  show ?case by simp
next
  case (Cons loc locs)
  obtain r w' where p: "process_location E args k loc w = (r, w')"
    by (cases "process_location E args k loc w")
  with process_location_dry_run [OF assms, of E k loc w]
  have f: "puts w' = puts w" "clock_reads w' = clock_reads w"
    by simp_all
  show ?case
  proof (cases r)
    case None
    with p f Cons.IH [of w'] show ?thesis by simp
  next
    case (Some e)
    with p f show ?thesis by simp
  qed
qed

lemma parse_pairs_frame:
  "puts (snd (parse_pairs E toks locs w)) = puts w \<and>
   clock_reads (snd (parse_pairs E toks locs w)) = clock_reads w \<and>
   requests_made (snd (parse_pairs E toks locs w)) = requests_made w"
  by (induction E toks locs w rule: parse_pairs.induct) (auto split: sum.splits prod.splits)

lemma resolve_locations_frame:
  "puts (snd (resolve_locations E args w)) = puts w \<and>
   clock_reads (snd (resolve_locations E args w)) = clock_reads w \<and>
   requests_made (snd (resolve_locations E args w)) = requests_made w"
proof (cases "truthy (arg_locations args)")
  case (Some s)
  obtain r w' where p: "parse_locations_arg E s w = (r, w')"
    by (cases "parse_locations_arg E s w")
  with parse_pairs_frame [of E "split_on (of_char CHR '','') s" "[]" w]
  have "puts w' = puts w \<and> clock_reads w' = clock_reads w \<and> requests_made w' = requests_made w"
    by (simp add: parse_locations_arg_def)
  with Some p show ?thesis
    by (simp add: resolve_locations_def split: sum.splits)
next
  case None
  then show ?thesis
    by (simp add: resolve_locations_def split: sum.splits option.splits)
qed

lemma main_dry_run:
  assumes "arg_dry_run args"
  shows "puts (snd (main E key args w)) = puts w \<and>
         clock_reads (snd (main E key args w)) = clock_reads w"
proof (cases "truthy key")
  case None
  then show ?thesis by (simp add: main_def)
next
  case (Some k)
  obtain r w1 where res: "resolve_locations E args w = (r, w1)"
    by (cases "resolve_locations E args w")
  with resolve_locations_frame [of E args w]
  have f1: "puts w1 = puts w" "clock_reads w1 = clock_reads w"
    by simp_all
  show ?thesis
  proof (cases r)
    case (Inl out)
    with Some res f1 show ?thesis by (simp add: main_def)
  next
    case (Inr locs)
    obtain r2 w2 where p: "process_locations E args k locs
        (log_event (Info_found (length locs) (map fst locs)) w1) = (r2, w2)"
      by (cases "process_locations E args k locs
        (log_event (Info_found (length locs) (map fst locs)) w1)")
    with process_locations_dry_run [OF assms, of E k locs
        "log_event (Info_found (length locs) (map fst locs)) w1"] f1
    have "puts w2 = puts w" "clock_reads w2 = clock_reads w"
      by simp_all
    with Some res Inr p show ?thesis
      by (simp add: main_def split: option.splits)
  qed
qed

lemma ascii_record_sizes:
  assumes "\<forall>x. list_all (\<lambda>c. c < 128) (float_repr E x)"
    and "list_all (\<lambda>c. c < 127) (json_chars (JObj data))"
    and "upload_body E data = Inr body"
  shows "length (json_dumps E True (JObj data)) = length body"
proof -
  from assms(2) have "surplus (json_chars (JObj data)) = 0"
    by (simp only: surplus_zero)
  with upload_body_vs_dry_run_size [OF assms(1) assms(3)] show ?thesis
    by (simp add: dry_run_size_def)
qed

text \<open>Claim C7, on the code: the dry run does not report the size of the body it would
  upload. It logs \<open>len(json.dumps(data_to_store))\<close> as the number of bytes, while the
  write path uploads \<open>json.dumps(data, ensure_ascii=False).encode("utf-8")\<close>: for a record
  with two accented letters the dry run reports 152, and the run without the flag uploads
  a body of 144 bytes for the same location and response.\<close>

theorem dry_run_reports_escaped_length:
  "logs (snd (process_location accent_env dry_run_args (ustr ''key'') (Some (ustr ''paris''), (48, 2))
            world0)) =
     [Info_fetching (Some (ustr ''paris'')) 48 2, Info_dry_run (Some (ustr ''paris'')) 152] \<and>
   map (\<lambda>(bucket, key, body). length body)
     (puts (snd (process_location accent_env demo_args (ustr ''key'') (Some (ustr ''paris''), (48, 2))
            world0))) = [144]"
proof -
  obtain body where b: "upload_body accent_env accent_record = Inr body" "length body = 144"
    using accent_record_uploaded by (cases "upload_body accent_env accent_record") auto
  have put: "s3_put accent_env n bucket key bytes = None" for n bucket key bytes
    by (simp add: accent_env_def demo_env_def)
  show ?thesis
    using accent_env_fetch accent_shape accent_record_reported b put
    by (simp add: process_location_def dry_run_args_def demo_args_def world0_def
          build_s3_key_def upload_json_to_s3_def Let_def)
qed

text \<open>What the dry run does keep: with the flag set, the whole run and every location in
  it leave the list of \<open>put_object\<close> calls and the clock untouched (no write, no key
  built), and a location whose fetch and shaping succeed gets one log record with the
  length of the default \<open>json.dumps\<close> text. That number is the size of the upload body
  only when the strings of the record hold no code point above 126.\<close>

lemma dry_run_writes_nothing:
  "arg_dry_run args \<longrightarrow>
     puts (snd (main E key args w)) = puts w \<and>
     clock_reads (snd (main E key args w)) = clock_reads w \<and>
     puts (snd (process_location E args k (name, (la, lo)) w)) = puts w \<and>
     clock_reads (snd (process_location E args k (name, (la, lo)) w)) = clock_reads w \<and>
     (call_current_weather E la lo k (log_event (Info_fetching name la lo) w) = (Inr payload, w1) \<and>
      shape name la lo payload = Inr data \<longrightarrow>
        process_location E args k (name, (la, lo)) w =
          (None, log_event (Info_dry_run name (length (json_dumps E True (JObj data)))) w1) \<and>
        ((\<forall>x. list_all (\<lambda>c. c < 128) (float_repr E x)) \<and>
         list_all (\<lambda>c. c < 127) (json_chars (JObj data)) \<and> upload_body E data = Inr body \<longrightarrow>
           length (json_dumps E True (JObj data)) = length body))"
proof (intro impI conjI)
  assume dry: "arg_dry_run args"
  show "puts (snd (main E key args w)) = puts w"
    using main_dry_run [OF dry] by blast
  show "clock_reads (snd (main E key args w)) = clock_reads w"
    using main_dry_run [OF dry] by blast
  show "puts (snd (process_location E args k (name, (la, lo)) w)) = puts w"
    using dry by (rule process_location_dry_run)
  show "clock_reads (snd (process_location E args k (name, (la, lo)) w)) = clock_reads w"
    using dry by (rule process_location_dry_run)
  assume ok: "call_current_weather E la lo k (log_event (Info_fetching name la lo) w) =
      (Inr payload, w1) \<and> shape name la lo payload = Inr data"
  then show "process_location E args k (name, (la, lo)) w =
      (None, log_event (Info_dry_run name (length (json_dumps E True (JObj data)))) w1)"
    using dry process_location_dry_run_report [of args E la lo k name w payload w1 data]
    by (simp add: dry_run_size_def)
  assume "(\<forall>x. list_all (\<lambda>c. c < 128) (float_repr E x)) \<and>
      list_all (\<lambda>c. c < 127) (json_chars (JObj data)) \<and> upload_body E data = Inr body"
  then show "length (json_dumps E True (JObj data)) = length body"
    using ascii_record_sizes [of E data body] by blast
qed

text \<open>A dry run over the two-location file: nothing is written, and 135 is reported for
  the ASCII record of the first location, the size of its upload body.\<close>

lemma dry_run_writes_nothing_example:
  "puts (snd (main sunny_env (Some (ustr ''key'')) dry_run_args world0)) = [] \<and>
   clock_reads (snd (main sunny_env (Some (ustr ''key'')) dry_run_args world0)) = 0 \<and>
   logs (snd (process_location sunny_env dry_run_args (ustr ''key'') (Some (ustr ''a''), (1, 2))
            world0)) =
     [Info_fetching (Some (ustr ''a'')) 1 2, Info_dry_run (Some (ustr ''a'')) 135] \<and>
   (\<exists>body. upload_body sunny_env
       (normalized_record (Some (ustr ''a'')) 1 2 (JInt 21) (JInt 60) (JInt 3)
          (JStr (ustr ''clear sky'')) (JInt 1700000000)) = Inr body \<and> length body = 135)"
proof -
  let ?data = "normalized_record (Some (ustr ''a'')) 1 2 (JInt 21) (JInt 60) (JInt 3)
          (JStr (ustr ''clear sky'')) (JInt 1700000000) :: (ustring \<times> int json) list"
  let ?p = "demo_payload (ustr ''clear sky'')"
  let ?w1 = "request_sent (log_event (Info_fetching (Some (ustr ''a'')) 1 2) (world0 :: int world))"
  have dry: "arg_dry_run dry_run_args"
    by (simp add: dry_run_args_def)
  have c: "call_current_weather sunny_env 1 2 (ustr ''key'')
      (log_event (Info_fetching (Some (ustr ''a'')) 1 2) world0) = (Inr ?p, ?w1)"
    by (simp add: call_current_weather_def sunny_env_def demo_env_def MAX_RETRIES_def
          retry_loop.simps [of _ _ _ _ 0])
  have s: "shape (Some (ustr ''a'')) 1 2 ?p = Inr ?data"
    by (simp add: shape_def demo_payload_def normalized_record_def py_bind_def ustr_def)
  have fl: "\<forall>x. list_all (\<lambda>c. c < 128) (float_repr sunny_env x)"
    using demo_float_repr_ascii by (simp add: sunny_env_def)
  have ch: "list_all (\<lambda>c. c < 127) (json_chars (JObj ?data))"
    by (simp add: normalized_record_def json_of_name_def ustr_def)
  have "map_sum id length (upload_body sunny_env ?data) = Inr 135"
    by (simp add: upload_body_def sunny_env_def eval_json utf8_char_def)
  then obtain body where b: "upload_body sunny_env ?data = Inr body" "length body = 135"
    by (cases "upload_body sunny_env ?data") auto
  note t = dry_run_writes_nothing [of dry_run_args sunny_env "Some (ustr ''key'')" world0
      "ustr ''key''" "Some (ustr ''a'')" 1 2 ?p ?w1 ?data body, THEN mp, OF dry]
  from t have "puts (snd (main sunny_env (Some (ustr ''key'')) dry_run_args world0)) = puts (world0 :: int world)"
    and "clock_reads (snd (main sunny_env (Some (ustr ''key'')) dry_run_args world0)) =
         clock_reads (world0 :: int world)"
    by blast+
  moreover from t c s have "process_location sunny_env dry_run_args (ustr ''key'')
      (Some (ustr ''a''), (1, 2)) world0 =
      (None, log_event (Info_dry_run (Some (ustr ''a''))
         (length (json_dumps sunny_env True (JObj ?data)))) ?w1)"
    by blast
  moreover from t c s fl ch b(1) have "length (json_dumps sunny_env True (JObj ?data)) = length body"
    by blast
  ultimately show ?thesis
    using b by (auto simp: world0_def)
qed

section \<open>Properties of the run\<close>

lemma demo_config_loads:
  assumes "read_json E path = Inr demo_config" "float_of_int E = Some"
  shows "load_locations_from_file E path = Inr [(ustr ''a'', (1, 2)), (ustr ''b'', (3, 4))]"
  using assms
  by (simp add: load_locations_from_file_def demo_config_def py_float_int_def ustr_def)

text \<open>Claim C1, on the code: a shaping error is not caught. With two locations and a
  first response that lacks \<open>dt\<close>, the \<open>KeyError\<close> leaves \<open>main\<close> after one request: the
  second location is never fetched and no skip is logged.\<close>

theorem shaping_error_halts_run:
  "main no_dt_env (Some (ustr ''key'')) demo_args world0 =
     (Uncaught KeyError,
      \<lparr>requests_made = 1, sleeps = [], clock_reads = 0, puts = [],
       logs = [Info_found 2 [Some (ustr ''a''), Some (ustr ''b'')],
               Info_fetching (Some (ustr ''a'')) 1 2]\<rparr>)"
proof -
  have r: "resolve_locations no_dt_env demo_args w =
      (Inr [(Some (ustr ''a''), (1, 2)), (Some (ustr ''b''), (3, 4))], w)" for w
  proof -
    have "load_locations_from_file no_dt_env (ustr ''config/locations.json'') =
        Inr [(ustr ''a'', (1, 2)), (ustr ''b'', (3, 4))]"
      by (rule demo_config_loads) (simp_all add: no_dt_env_def demo_env_def)
    then show ?thesis
      by (simp add: resolve_locations_def demo_args_def named_def ustr_def)
  qed
  have c: "call_current_weather no_dt_env 1 2 (ustr ''key'') w = (Inr no_dt_payload, request_sent w)"
    if "requests_made w = 0" for w
    using that
    by (simp add: call_current_weather_def no_dt_env_def demo_env_def MAX_RETRIES_def
          retry_loop.simps [of _ _ _ _ 0])
  have s: "shape name 1 2 no_dt_payload = Inl KeyError" for name
    by (simp add: shape_def no_dt_payload_def py_bind_def ustr_def)
  show ?thesis
    using r c s
    by (simp add: main_def process_location_def world0_def log_event_def request_sent_def ustr_def)
qed

lemma retry_loop_body:
  "retry_loop E la lo k attempt w = (Inr payload, w') \<Longrightarrow>
     (\<exists>n. http_get E n la lo k = Http_ok payload) \<or> \<not> attempt < MAX_RETRIES"
proof (induction E la lo k attempt w rule: retry_loop.induct)
  case (1 E la lo k attempt w)
  show ?case
  proof (cases "attempt < MAX_RETRIES")
    case False
    then show ?thesis by simp
  next
    case a: True
    show ?thesis
    proof (cases "http_get E (requests_made w) la lo k")
      case (Http_ok body)
      with a "1.prems" have "body = payload"
        by (subst (asm) retry_loop.simps) simp
      with Http_ok show ?thesis by blast
    next
      case (Http_raises exc)
      show ?thesis
      proof (cases "\<exists>n. exc = RequestException n")
        case False
        with a Http_raises "1.prems" show ?thesis
          by (subst (asm) retry_loop.simps) (cases exc; simp)
      next
        case True
        then obtain n where n: "exc = RequestException n" by blast
        show ?thesis
        proof (cases "attempt + 1 \<ge> MAX_RETRIES")
          case True
          with a Http_raises n "1.prems" show ?thesis
            by (subst (asm) retry_loop.simps) simp
        next
          case False
          with a Http_raises n "1.prems"
          have "retry_loop E la lo k (attempt + 1)
              (time_sleep (RETRY_BACKOFF_SECONDS * (attempt + 1))
                 (log_event (Warn_request_failed (attempt + 1) MAX_RETRIES exc)
                    (request_sent w))) = (Inr payload, w')"
            by (subst (asm) retry_loop.simps) simp
          from "1.IH" [OF a Http_raises n False this] False show ?thesis
            by simp
        qed
      qed
    qed
  qed
qed

lemma call_current_weather_body:
  "call_current_weather E la lo k w = (Inr payload, w') \<Longrightarrow>
     \<exists>n. http_get E n la lo k = Http_ok payload"
  using retry_loop_body [of E la lo k 0 w payload w']
  by (simp add: call_current_weather_def MAX_RETRIES_def)

lemma well_shaped_shape: "well_shaped p \<Longrightarrow> \<exists>d. shape name la lo p = Inr d"
  using shape_full [of p _ _ _ _ _ name la lo] by (auto simp: well_shaped_def)

text \<open>Fetch failures and upload failures never leave the loop body.\<close>

lemma process_location_continues:
  assumes shaped: "\<forall>n la lo p. http_get E n la lo k = Http_ok p \<longrightarrow> well_shaped p"
    and named: "arg_dry_run args \<or> fst loc \<noteq> None"
  shows "fst (process_location E args k loc w) = None"
proof -
  obtain name la lo where loc: "loc = (name, (la, lo))"
    by (cases loc) auto
  obtain r w1 where c: "call_current_weather E la lo k (log_event (Info_fetching name la lo) w) = (r, w1)"
    by (cases "call_current_weather E la lo k (log_event (Info_fetching name la lo) w)")
  show ?thesis
  proof (cases r)
    case (Inl e)
    with loc c show ?thesis by (simp add: process_location_def)
  next
    case (Inr payload)
    with c have "call_current_weather E la lo k (log_event (Info_fetching name la lo) w) =
        (Inr payload, w1)"
      by simp
    from call_current_weather_body [OF this]
    obtain n where "http_get E n la lo k = Http_ok payload" ..
    with shaped have "well_shaped payload"
      by blast
    from well_shaped_shape [OF this, of name la lo]
    obtain d where d: "shape name la lo payload = Inr d" ..
    show ?thesis
    proof (cases "arg_dry_run args")
      case True
      with loc c Inr d show ?thesis by (simp add: process_location_def)
    next
      case False
      with named loc obtain city where "name = Some city" by auto
      with False loc c Inr d show ?thesis
        by (simp add: process_location_def split: prod.splits sum.splits)
    qed
  qed
qed

lemma process_locations_complete:
  assumes shaped: "\<forall>n la lo p. http_get E n la lo k = Http_ok p \<longrightarrow> well_shaped p"
    and named: "arg_dry_run args \<or> list_all (\<lambda>loc. fst loc \<noteq> None) locs"
  shows "fst (process_locations E args k locs w) = None"
  using named
proof (induction locs arbitrary: w)
  case Nil
  show ?case by simp
next
  case (Cons loc locs)
  then have "arg_dry_run args \<or> fst loc \<noteq> None"
    by auto
  from process_location_continues [OF shaped this, of w]
  obtain w' where "process_location E args k loc w = (None, w')"
    by (cases "process_location E args k loc w") auto
  moreover from Cons.prems have "arg_dry_run args \<or> list_all (\<lambda>loc. fst loc \<noteq> None) locs"
    by auto
  ultimately show ?case
    using Cons.IH [of w'] by simp
qed

text \<open>Claim C4 as stated fails: with the credential set and \<open>--config\<close> naming a file
  that cannot be opened, \<open>--location\<close> is not used and still the exit status is 1, since
  the \<open>OSError\<close> leaves \<open>main\<close>.\<close>

theorem missing_config_exits_1:
  "truthy (Some (ustr ''key'')) = Some (ustr ''key'') \<and> arg_location demo_args = None \<and>
   exit_code (fst (main demo_env (Some (ustr ''key'')) demo_args world0)) = 1"
  by (simp add: main_def resolve_locations_def load_locations_from_file_def demo_env_def
        demo_args_def ustr_def)

text \<open>Claim C4, amended: the exit status is 1 when the credential is unset or empty, when
  neither \<open>--locations\<close> nor \<open>--config\<close> has a value and \<open>--lat\<close> or \<open>--lon\<close> is missing
  (no request is sent), and when the configuration file cannot be loaded. Once the
  locations are resolved, the exit status is 0 whatever fetches and uploads fail,
  provided the responses that arrive have the five paths and every location has a name
  (or the run is a dry run).\<close>

theorem main_exit_code:
  "(truthy key = None \<longrightarrow> exit_code (fst (main E key args w)) = 1) \<and>
   (truthy key = Some k \<and> truthy (arg_locations args) = None \<and> truthy (arg_config args) = None \<and>
    (arg_lat args = None \<or> arg_lon args = None) \<longrightarrow>
      exit_code (fst (main E key args w)) = 1 \<and>
      requests_made (snd (main E key args w)) = requests_made w) \<and>
   (truthy key = Some k \<and> truthy (arg_locations args) = None \<and>
    truthy (arg_config args) = Some path \<and> load_locations_from_file E path = Inl e \<longrightarrow>
      exit_code (fst (main E key args w)) = 1) \<and>
   (truthy key = Some k \<and> resolve_locations E args w = (Inr locs, w1) \<and>
    (\<forall>n la lo p. http_get E n la lo k = Http_ok p \<longrightarrow> well_shaped p) \<and>
    (arg_dry_run args \<or> list_all (\<lambda>loc. fst loc \<noteq> None) locs) \<longrightarrow>
      exit_code (fst (main E key args w)) = 0)"
proof (intro conjI impI)
  assume "truthy key = None"
  then show "exit_code (fst (main E key args w)) = 1"
    by (simp add: main_def)
next
  assume h: "truthy key = Some k \<and> truthy (arg_locations args) = None \<and>
    truthy (arg_config args) = None \<and> (arg_lat args = None \<or> arg_lon args = None)"
  then have "resolve_locations E args w = (Inl (SysExit 1), log_event Err_location_requires_lat_lon w)"
    by (auto simp: resolve_locations_def split: option.splits)
  with h show "exit_code (fst (main E key args w)) = 1"
    and "requests_made (snd (main E key args w)) = requests_made w"
    by (simp_all add: main_def)
next
  assume h: "truthy key = Some k \<and> truthy (arg_locations args) = None \<and>
    truthy (arg_config args) = Some path \<and> load_locations_from_file E path = Inl e"
  then have "resolve_locations E args w = (Inl (Uncaught e), w)"
    by (simp add: resolve_locations_def)
  with h show "exit_code (fst (main E key args w)) = 1"
    by (simp add: main_def)
next
  assume h: "truthy key = Some k \<and> resolve_locations E args w = (Inr locs, w1) \<and>
    (\<forall>n la lo p. http_get E n la lo k = Http_ok p \<longrightarrow> well_shaped p) \<and>
    (arg_dry_run args \<or> list_all (\<lambda>loc. fst loc \<noteq> None) locs)"
  then have "fst (process_locations E args k locs
      (log_event (Info_found (length locs) (map fst locs)) w1)) = None"
    by (intro process_locations_complete) blast+
  then obtain w2 where "process_locations E args k locs
      (log_event (Info_found (length locs) (map fst locs)) w1) = (None, w2)"
    by (cases "process_locations E args k locs
      (log_event (Info_found (length locs) (map fst locs)) w1)") auto
  with h show "exit_code (fst (main E key args w)) = 0"
    by (simp add: main_def)
qed

lemma half_env_resolves:
  "resolve_locations half_env demo_args w =
     (Inr [(Some (ustr ''a''), (1, 2)), (Some (ustr ''b''), (3, 4))], w)"
proof -
  have "load_locations_from_file half_env (ustr ''config/locations.json'') =
      Inr [(ustr ''a'', (1, 2)), (ustr ''b'', (3, 4))]"
    by (rule demo_config_loads) (simp_all add: half_env_def demo_env_def)
  then show ?thesis
    by (simp add: resolve_locations_def demo_args_def named_def ustr_def)
qed

text \<open>A run in which the first location fails after three attempts and the second is
  uploaded.\<close>

lemma half_env_run:
  "fst (main half_env (Some (ustr ''key'')) demo_args world0) = Completed \<and>
   requests_made (snd (main half_env (Some (ustr ''key'')) demo_args world0)) = 4 \<and>
   sleeps (snd (main half_env (Some (ustr ''key'')) demo_args world0)) = [3, 6] \<and>
   map (\<lambda>(bucket, key, body). key) (puts (snd (main half_env (Some (ustr ''key'')) demo_args world0)))
     = [ustr ''raw/weather/b/weather_2024-01-02_03-04-05.json'']"
proof -
  note r = half_env_resolves
  have c1: "call_current_weather half_env 1 2 (ustr ''key'') w =
      (Inl (RequestException 2),
       log_event (Err_max_retries 1 2)
        (log_event (Warn_request_failed 3 3 (RequestException 2))
          (request_sent
            (time_sleep 6
              (log_event (Warn_request_failed 2 3 (RequestException 1))
                (request_sent
                  (time_sleep 3
                    (log_event (Warn_request_failed 1 3 (RequestException 0))
                      (request_sent w)))))))))"
    if "requests_made w = 0" for w
    using that
    apply (simp add: call_current_weather_def)
    apply (subst retry_loop.simps, simp add: half_env_def MAX_RETRIES_def RETRY_BACKOFF_SECONDS_def)
    apply (subst retry_loop.simps, simp add: half_env_def MAX_RETRIES_def RETRY_BACKOFF_SECONDS_def)
    apply (subst retry_loop.simps, simp add: half_env_def MAX_RETRIES_def RETRY_BACKOFF_SECONDS_def)
    done
  have c2: "call_current_weather half_env 3 4 (ustr ''key'') w =
      (Inr (demo_payload (ustr ''clear sky'')), request_sent w)"
    if "requests_made w = 3" for w
    using that
    by (simp add: call_current_weather_def half_env_def MAX_RETRIES_def
          retry_loop.simps [of _ _ _ _ 0])
  let ?d = "normalized_record (Some (ustr ''b'')) 3 4 (JInt 21) (JInt 60) (JInt 3)
          (JStr (ustr ''clear sky'')) (JInt 1700000000) :: (ustring \<times> int json) list"
  have s: "shape (Some (ustr ''b'')) 3 4 (demo_payload (ustr ''clear sky'')) = Inr ?d"
    by (simp add: shape_def demo_payload_def normalized_record_def py_bind_def ustr_def)
  have "map_sum id length (upload_body half_env ?d) = Inr 135"
    by (simp add: upload_body_def half_env_def eval_json utf8_char_def)
  then obtain body where b: "upload_body half_env ?d = Inr body"
    by (cases "upload_body half_env ?d") auto
  have put: "s3_put half_env n bucket key bytes = None" for n bucket key bytes
    by (simp add: half_env_def demo_env_def)
  have clock: "strftime_key (utcnow half_env n) = ustr ''2024-01-02_03-04-05''" for n
    by (simp add: half_env_def demo_env_def strftime_key_def zero_pad_def dec_digits.simps ustr_def)
  have lower: "py_lower half_env (replace_char 32 95 (ustr ''b'')) = ustr ''b''"
    by (simp add: py_lower_def replace_char_def ascii_lower_def ustr_def)
  show ?thesis
    using r c1 c2 s b put clock lower
    by (simp add: main_def process_location_def world0_def build_s3_key_def upload_json_to_s3_def
          S3_RAW_PREFIX_def Let_def demo_args_def ustr_def)
qed

lemma half_env_well_shaped:
  "\<forall>n la lo p. http_get half_env n la lo k = Http_ok p \<longrightarrow> well_shaped p"
  by (auto simp: half_env_def well_shaped_def path_main_temp_def path_main_humidity_def
        path_wind_speed_def path_weather0_description_def path_dt_def demo_payload_def ustr_def
      split: if_splits)

text \<open>The four cases: no credential; \<open>--location\<close> without coordinates; a missing
  configuration file; a run whose first location fails after three attempts and whose
  second location is uploaded.\<close>

theorem main_exit_code_witness:
  "exit_code (fst (main demo_env None demo_args world0)) = 1 \<and>
   exit_code (fst (main demo_env (Some (ustr ''key'')) single_args world0)) = 1 \<and>
   requests_made (snd (main demo_env (Some (ustr ''key'')) single_args world0)) = 0 \<and>
   exit_code (fst (main demo_env (Some (ustr ''key'')) demo_args world0)) = 1 \<and>
   exit_code (fst (main half_env (Some (ustr ''key'')) demo_args world0)) = 0 \<and>
   requests_made (snd (main half_env (Some (ustr ''key'')) demo_args world0)) = 4 \<and>
   sleeps (snd (main half_env (Some (ustr ''key'')) demo_args world0)) = [3, 6]"
proof -
  have key: "truthy (Some (ustr ''key'')) = Some (ustr ''key'')"
    by (simp add: ustr_def)
  have "exit_code (fst (main demo_env None demo_args world0)) = 1"
    using main_exit_code [where key = None and E = demo_env and args = demo_args and w = world0]
    by simp
  moreover have "exit_code (fst (main demo_env (Some (ustr ''key'')) single_args world0)) = 1 \<and>
      requests_made (snd (main demo_env (Some (ustr ''key'')) single_args world0)) = 0"
    using key main_exit_code [where key = "Some (ustr ''key'')" and E = demo_env
        and args = single_args and w = world0 and k = "ustr ''key''"]
    by (simp add: single_args_def world0_def)
  moreover have "exit_code (fst (main demo_env (Some (ustr ''key'')) demo_args world0)) = 1"
  proof -
    have "truthy (arg_locations demo_args) = None"
      "truthy (arg_config demo_args) = Some (ustr ''config/locations.json'')"
      "load_locations_from_file demo_env (ustr ''config/locations.json'') = Inl OSError"
      by (simp_all add: demo_args_def demo_env_def load_locations_from_file_def ustr_def)
    with key main_exit_code [where key = "Some (ustr ''key'')" and E = demo_env
        and args = demo_args and w = world0 and k = "ustr ''key''"
        and path = "ustr ''config/locations.json''" and e = OSError]
    show ?thesis
      by blast
  qed
  moreover have "exit_code (fst (main half_env (Some (ustr ''key'')) demo_args world0)) = 0"
  proof -
    have "list_all (\<lambda>loc. fst loc \<noteq> None)
        [(Some (ustr ''a''), (1, 2)), (Some (ustr ''b''), (3::int, 4::int))]"
      by simp
    with key half_env_resolves [of world0] half_env_well_shaped [of "ustr ''key''"]
      main_exit_code [where key = "Some (ustr ''key'')" and E = half_env
        and args = demo_args and w = world0 and k = "ustr ''key''"
        and locs = "[(Some (ustr ''a''), (1, 2)), (Some (ustr ''b''), (3, 4))]" and ?w1.0 = world0]
    show ?thesis
      by blast
  qed
  ultimately show ?thesis
    using half_env_run by simp
qed

end
